theory Spec2Isabelle
  imports Main "HOL-Library.AList"
begin

section \<open>Strings and the regular expressions of the router\<close>

text \<open>
  A JavaScript string is modelled as a \<^typ>\<open>string\<close>, one \<^typ>\<open>char\<close> per code unit; the
  model covers the code units below 256 (Latin-1). The character classes are those of
  the regular expressions in \<^verbatim>\<open>index.js\<close>: \<^verbatim>\<open>\s\<close> (white space and line terminators),
  \<^verbatim>\<open>\w\<close> (\<^verbatim>\<open>[A-Za-z0-9_]\<close>) and \<^verbatim>\<open>.\<close> (anything but a line terminator).
\<close>

definition is_space :: "char \<Rightarrow> bool" where
  "is_space c = (of_char c \<in> set [9, 10, 11, 12, 13, 32, 160 :: nat])"

definition is_word :: "char \<Rightarrow> bool" where
  "is_word c =
     (let n = (of_char c :: nat)
      in (48 \<le> n \<and> n \<le> 57) \<or> (65 \<le> n \<and> n \<le> 90) \<or> n = 95 \<or> (97 \<le> n \<and> n \<le> 122))"

definition is_line_terminator :: "char \<Rightarrow> bool" where
  "is_line_terminator c = (of_char c \<in> set [10, 13 :: nat])"

text \<open>\<^verbatim>\<open>String.prototype.toLowerCase\<close> on one code unit below 256.\<close>

definition toLowerCase_char :: "char \<Rightarrow> char" where
  "toLowerCase_char c =
     (let n = (of_char c :: nat)
      in if (65 \<le> n \<and> n \<le> 90) \<or> (192 \<le> n \<and> n \<le> 222 \<and> n \<noteq> 215)
         then char_of (n + 32) else c)"

definition toLowerCase :: "string \<Rightarrow> string" where
  "toLowerCase s = map toLowerCase_char s"

text \<open>
  \<^verbatim>\<open>s.replace(/^\s+|\s+$/g, '')\<close> and \<^verbatim>\<open>s.trim()\<close>: the white space at both ends is
  removed.
\<close>

definition js_trim :: "string \<Rightarrow> string" where
  "js_trim s = rev (dropWhile is_space (rev (dropWhile is_space s)))"

text \<open>\<^verbatim>\<open>s.charAt(0)\<close>: the first code unit as a string, the empty string when there is none.\<close>

definition charAt0 :: "string \<Rightarrow> string" where
  "charAt0 s = take 1 s"

text \<open>
  A regular expression is embedded as a backtracking matcher: applied to the text that
  is left, a piece returns the remainders of all its matches, in the order in which the
  JavaScript engine tries them (a greedy star the longest first, a lazy one the shortest
  first, an alternative from left to right, an optional piece taken before left out).
  The match of the whole expression is the first one of the list.
\<close>

type_synonym matcher = "string \<Rightarrow> string list"

fun re_star :: "(char \<Rightarrow> bool) \<Rightarrow> matcher" where
  "re_star P [] = [[]]"
| "re_star P (c # cs) = (if P c then re_star P cs @ [c # cs] else [c # cs])"

definition re_plus :: "(char \<Rightarrow> bool) \<Rightarrow> matcher" where
  "re_plus P s = (case s of [] \<Rightarrow> [] | c # cs \<Rightarrow> if P c then re_star P cs else [])"

definition re_lit :: "string \<Rightarrow> matcher" where
  "re_lit t s = (if take (length t) s = t then [drop (length t) s] else [])"

definition re_seq :: "matcher \<Rightarrow> matcher \<Rightarrow> matcher" where
  "re_seq m1 m2 s = concat (map m2 (m1 s))"

definition re_opt :: "matcher \<Rightarrow> matcher" where
  "re_opt m s = m s @ [s]"

text \<open>
  A captured alternation \<^verbatim>\<open>(t1|...|tn)\<close>: each match with the token it captured.
\<close>

definition re_alts :: "string list \<Rightarrow> string \<Rightarrow> (string \<times> string) list" where
  "re_alts ts s = concat (map (\<lambda>t. map (\<lambda>r. (t, r)) (re_lit t s)) ts)"

text \<open>
  The captured lazy \<^verbatim>\<open>(.*?)\<close>: the captured text and the remainder, the shortest
  capture first.
\<close>

fun re_dot_lazy :: "string \<Rightarrow> (string \<times> string) list" where
  "re_dot_lazy [] = [([], [])]"
| "re_dot_lazy (c # cs) =
     ([], c # cs) #
     (if is_line_terminator c then []
      else map (\<lambda>(cap, r). (c # cap, r)) (re_dot_lazy cs))"

subsection \<open>The method patterns\<close>

text \<open>
  \<^verbatim>\<open>this.implicitMethodPattern = /^(get|post|put|patch|delete)/\<close> and
  \<^verbatim>\<open>this.explicitMethodPattern = /^\{\s*(GET|POST|PUT|DELETE|PATCH)\s*\}\s*/\<close>.
  Both are anchored, so a match starts at the first code unit. \<open>exec\<close> gives the first
  match: the token captured by group 1 and the text after the match.
\<close>

definition implicitMethodPattern_exec :: "string \<Rightarrow> (string \<times> string) option" where
  "implicitMethodPattern_exec s =
     (case re_alts [''get'', ''post'', ''put'', ''patch'', ''delete''] s of
        [] \<Rightarrow> None | m # _ \<Rightarrow> Some m)"

definition explicitMethodPattern_exec :: "string \<Rightarrow> (string \<times> string) option" where
  "explicitMethodPattern_exec s =
     (case concat (map (\<lambda>(t, r).
               map (\<lambda>r'. (t, r'))
                 (re_seq (re_star is_space) (re_seq (re_lit ''}'') (re_star is_space)) r))
             (concat (map (re_alts [''GET'', ''POST'', ''PUT'', ''DELETE'', ''PATCH''])
                (re_seq (re_lit ''{'') (re_star is_space) s)))) of
        [] \<Rightarrow> None | m # _ \<Rightarrow> Some m)"

text \<open>\<^verbatim>\<open>this.implicitMethodPattern.test(s)\<close>\<close>

definition implicitMethodPattern_test :: "string \<Rightarrow> bool" where
  "implicitMethodPattern_test s = (implicitMethodPattern_exec s \<noteq> None)"

text \<open>\<^verbatim>\<open>s.replace(this.implicitMethodPattern, '')\<close>\<close>

definition implicitMethodPattern_strip :: "string \<Rightarrow> string" where
  "implicitMethodPattern_strip s =
     (case implicitMethodPattern_exec s of None \<Rightarrow> s | Some (t, r) \<Rightarrow> r)"

text \<open>
  \<^verbatim>\<open>getMethod(pathName, isExplicit)\<close>: the captured token in lower case, \<^verbatim>\<open>'get'\<close> when the
  pattern does not match (a captured token is never empty, so \<^verbatim>\<open>methodMatch[1]\<close> is
  truthy whenever there is a match).
\<close>

definition getMethod :: "string \<Rightarrow> bool \<Rightarrow> string" where
  "getMethod pathName isExplicit =
     (let methodMatch = (if isExplicit then explicitMethodPattern_exec pathName
                         else implicitMethodPattern_exec pathName)
      in case methodMatch of
           None \<Rightarrow> ''get''
         | Some (t, r) \<Rightarrow> if t \<noteq> [] then toLowerCase t else ''get'')"

subsection \<open>The action naming resolver\<close>

text \<open>
  The first lines of the loop body of \<^verbatim>\<open>setObjectActions\<close> and of \<^verbatim>\<open>setFunctionActions\<close>
  (the two bodies are the same text):
  \<^verbatim>\<open>
  let pathName = actionName.replace(/^\s+|\s+$/g, '');
  let method = this.getMethod(pathName, false);
  if (pathName === 'index') pathName = '';
  if (this.implicitMethodPattern.test(pathName)) {
    pathName = pathName.replace(this.implicitMethodPattern, '');
    if (pathName)
      pathName = pathName.charAt(0).toLowerCase() + pathName.substr(1);
  }
  \<close>
  The result is the verb and the bare action name.
\<close>

definition resolveAction :: "string \<Rightarrow> string \<times> string" where
  "resolveAction actionName =
     (let pathName = js_trim actionName;
          method = getMethod pathName False;
          pathName = (if pathName = ''index'' then [] else pathName);
          pathName =
            (if implicitMethodPattern_test pathName
             then (let pathName = implicitMethodPattern_strip pathName
                   in if pathName \<noteq> []
                      then toLowerCase (charAt0 pathName) @ drop 1 pathName
                      else pathName)
             else pathName)
      in (method, pathName))"

subsection \<open>The parameter extractor\<close>

text \<open>
  The separator \<^verbatim>\<open>/\s*,\s*/\<close> of \<^verbatim>\<open>split\<close>, tried at the start of the text that is left.
\<close>

definition comma_sep :: matcher where
  "comma_sep = re_seq (re_star is_space) (re_seq (re_lit '','') (re_star is_space))"

text \<open>
  \<^verbatim>\<open>s.split(/\s*,\s*/)\<close>: the text is scanned from left to right; where the separator
  matches, the piece read so far is emitted and the scan goes on after the match;
  the piece after the last separator is always emitted, also when it is empty.
  \<open>cur\<close> is the piece read so far, in reverse.
\<close>

function split_commas :: "string \<Rightarrow> string \<Rightarrow> string list" where
  "split_commas cur [] = [rev cur]"
| "split_commas cur (c # cs) =
     (case comma_sep (c # cs) of
        [] \<Rightarrow> split_commas (c # cur) cs
      | r # _ \<Rightarrow> rev cur # split_commas [] r)"
  by pat_completeness auto
termination
proof (relation "measure (\<lambda>(cur, s). length s)")
  show "wf (measure (\<lambda>(cur, s). length s))" by simp
next
  fix cur :: string and c cs
  show "((c # cur, cs), (cur, c # cs)) \<in> measure (\<lambda>(cur, s). length s)" by simp
next
  fix cur :: string and c cs r rs
  assume "comma_sep (c # cs) = r # rs"
  then have "r \<in> set (comma_sep (c # cs))" by simp
  then obtain a b where a: "a \<in> set (re_star is_space (c # cs))"
    and b: "b \<in> set (re_lit '','' a)" and r: "r \<in> set (re_star is_space b)"
    by (auto simp: comma_sep_def re_seq_def)
  have star: "length y \<le> length x" if "y \<in> set (re_star is_space x)" for x y
    using that by (induction x) (auto split: if_splits)
  from b have "length b < length a"
    by (cases a) (auto simp: re_lit_def split: if_splits)
  with star [OF a] star [OF r] have "length r < length (c # cs)" by simp
  then show "(([], r), (cur, c # cs)) \<in> measure (\<lambda>(cur, s). length s)" by simp
qed

text \<open>
  The signature pattern \<^verbatim>\<open>/^(\s*function\s+)?(?:\w*\s*)?\((.*?)\)/\<close>, matched against the
  source text of the callable: the text captured by group 2 in the first match, if the
  pattern matches.
\<close>

definition signature_prefix :: matcher where
  "signature_prefix =
     re_seq (re_opt (re_seq (re_star is_space)
                      (re_seq (re_lit ''function'') (re_plus is_space))))
       (re_seq (re_opt (re_seq (re_star is_word) (re_star is_space)))
          (re_lit ''(''))"

definition signature_match :: "string \<Rightarrow> string option" where
  "signature_match src =
     (case concat (map (\<lambda>r. filter (\<lambda>(cap, r'). re_lit '')'' r' \<noteq> []) (re_dot_lazy r))
                    (signature_prefix src)) of
        [] \<Rightarrow> None
      | (cap, r') # _ \<Rightarrow> Some cap)"

text \<open>
  \<^verbatim>\<open>
  getParameterNames(fn) {
    var args = fn.toString().match(/^(\s*function\s+)?(?:\w*\s*)?\((.*?)\)/);
    args = args ? (args[2] ? args[2].trim().split(/\s*,\s*/) : []) : null;
    return args;
  }
  \<close>
  The argument of the model is \<^verbatim>\<open>fn.toString()\<close>, the source text of the callable;
  \<^verbatim>\<open>null\<close> is \<open>None\<close>.
\<close>

definition getParameterNames :: "string \<Rightarrow> string list option" where
  "getParameterNames src =
     (case signature_match src of
        None \<Rightarrow> None
      | Some args2 \<Rightarrow> Some (if args2 \<noteq> [] then split_commas [] (js_trim args2) else []))"

section \<open>Values, controllers and requests\<close>

text \<open>
  The JavaScript values the router handles. An object is the association list of its
  properties; a function carries its source text (what \<^verbatim>\<open>toString\<close> returns) and, being
  an object too, its properties. Numbers are integers here (a fraction or \<^verbatim>\<open>NaN\<close> is
  outside the model).
\<close>

datatype jsval =
    JUndefined
  | JNull
  | JBool bool
  | JNum int
  | JStr string
  | JObj "(string \<times> jsval) list"
  | JFun string "(string \<times> jsval) list"

datatype error = TypeError | ConstructorThrew

text \<open>The truth value of a value under \<^verbatim>\<open>!\<close> and \<^verbatim>\<open>||\<close>.\<close>

fun truthy :: "jsval \<Rightarrow> bool" where
  "truthy JUndefined = False"
| "truthy JNull = False"
| "truthy (JBool b) = b"
| "truthy (JNum n) = (n \<noteq> 0)"
| "truthy (JStr s) = (s \<noteq> [])"
| "truthy (JObj ps) = True"
| "truthy (JFun src ps) = True"

text \<open>\<^verbatim>\<open>typeof v === 'function'\<close> and \<^verbatim>\<open>v.toString()\<close> of a function.\<close>

fun is_function :: "jsval \<Rightarrow> bool" where
  "is_function (JFun src ps) = True"
| "is_function v = False"

fun fn_toString :: "jsval \<Rightarrow> string" where
  "fn_toString (JFun src ps) = src"
| "fn_toString v = []"

text \<open>
  Reading \<^verbatim>\<open>v.k\<close>: \<^verbatim>\<open>undefined\<close> when the property is absent, and on a boolean, a number
  or a string (the keys the router reads are not built-in members); a \<^verbatim>\<open>TypeError\<close> on
  \<^verbatim>\<open>undefined\<close> and \<^verbatim>\<open>null\<close>.
\<close>

definition lookup_prop :: "(string \<times> jsval) list \<Rightarrow> string \<Rightarrow> jsval" where
  "lookup_prop ps k = (case map_of ps k of None \<Rightarrow> JUndefined | Some v \<Rightarrow> v)"

fun getProp :: "jsval \<Rightarrow> string \<Rightarrow> error + jsval" where
  "getProp JUndefined k = Inl TypeError"
| "getProp JNull k = Inl TypeError"
| "getProp (JObj ps) k = Inr (lookup_prop ps k)"
| "getProp (JFun src ps) k = Inr (lookup_prop ps k)"
| "getProp v k = Inr JUndefined"

text \<open>
  Assigning \<^verbatim>\<open>v.k = x\<close>. The whole of \<^verbatim>\<open>index.js\<close> is a class body, hence strict mode
  code: the assignment to a property of a boolean, a number or a string is a
  \<^verbatim>\<open>TypeError\<close>, as it is on \<^verbatim>\<open>undefined\<close> and \<^verbatim>\<open>null\<close>. The object is mutated in place in
  the source; the model returns the updated object.
\<close>

fun setProp :: "jsval \<Rightarrow> string \<Rightarrow> jsval \<Rightarrow> error + jsval" where
  "setProp (JObj ps) k x = Inr (JObj (AList.update k x ps))"
| "setProp (JFun src ps) k x = Inr (JFun src (AList.update k x ps))"
| "setProp v k x = Inl TypeError"

text \<open>\<^verbatim>\<open>arguments[i]\<close>: \<^verbatim>\<open>undefined\<close> past the arguments given.\<close>

definition argument :: "jsval list \<Rightarrow> nat \<Rightarrow> jsval" where
  "argument args i = (if i < length args then args ! i else JUndefined)"

text \<open>
  A controller instance: its identity (what \<^verbatim>\<open>===\<close> compares) and the member lookup
  \<^verbatim>\<open>instance[name]\<close>.
\<close>

record instance_obj =
  obj_ref :: nat
  obj_get :: "string \<Rightarrow> jsval"

text \<open>
  What a controller file exports, as \<^verbatim>\<open>loadImplicitRoutes\<close> tells the cases apart:
  \<^item> \<open>ObjectDef ref props\<close>: \<^verbatim>\<open>typeof controller == "object"\<close>; \<open>ref\<close> is the identity of the
    object and \<open>props\<close> its enumerable properties in the order of \<^verbatim>\<open>for ... in\<close>;
  \<^item> \<open>ClassDef names made\<close>: a class or function with a prototype; \<open>names\<close> is
    \<^verbatim>\<open>Object.getOwnPropertyNames(controller.prototype)\<close> and \<open>made\<close> the outcome of
    \<^verbatim>\<open>new controller()\<close>, the instance or the exception of the constructor;
  \<^item> \<open>NoPrototype\<close>: any other truthy export (a string, a number, an arrow function), for
    which \<^verbatim>\<open>controller.prototype\<close> is \<^verbatim>\<open>undefined\<close>.
\<close>

datatype controller_def =
    ObjectDef nat "(string \<times> jsval) list"
  | ClassDef "string list" "error + instance_obj"
  | NoPrototype

text \<open>The result of \<^verbatim>\<open>getControllerData\<close>.\<close>

record controllerData =
  controllerDef :: controller_def
  controllerName :: string
  viewBaseName :: string

text \<open>
  The request, as far as the router reads it: \<^verbatim>\<open>req.params[name]\<close>, \<^verbatim>\<open>req.session\<close> and
  \<^verbatim>\<open>req.flash\<close>. The flash reader belongs to the session middleware and consumes what it
  returns, so it is a function on a store \<open>'s\<close> of that middleware.
\<close>

datatype 's flash =
    FlashUndefined
  | FlashReader "string \<Rightarrow> 's \<Rightarrow> jsval \<times> 's"
  | FlashNotCallable

record 's request =
  req_params :: "string \<Rightarrow> jsval"
  req_session :: jsval
  req_flash :: "'s flash"

section \<open>The route registrar\<close>

text \<open>
  The array \<^verbatim>\<open>routeData\<close> of \<^verbatim>\<open>addRoute(...routeData)\<close>, one field per index 0 to 6.
  \<^verbatim>\<open>routeData[4]\<close> is \<open>None\<close> for \<^verbatim>\<open>null\<close>; \<^verbatim>\<open>routeData[6]\<close> is \<^verbatim>\<open>undefined\<close> when the caller
  passes six arguments.
\<close>

record routeData =
  rd_method :: string
  rd_path :: string
  rd_viewBaseName :: string
  rd_actionName :: string
  rd_args :: "string list option"
  rd_instance :: instance_obj
  rd_controllerName :: jsval

text \<open>
  The function \<^verbatim>\<open>controllerClass\<close> that \<^verbatim>\<open>addRoute\<close> creates: a closure over the
  \<^verbatim>\<open>routeData\<close> of the call that created it, with \<^verbatim>\<open>routeData[5]\<close> as the prototype of its
  prototype. \<open>cc_serial\<close> stands for the identity of the function object: the number of
  entries of \<^verbatim>\<open>classesLoaded\<close> when it was created.
\<close>

record controllerClass =
  cc_serial :: nat
  cc_routeData :: routeData

text \<open>An entry \<^verbatim>\<open>{instance: ..., controller: ...}\<close> of \<^verbatim>\<open>this.classesLoaded\<close>.\<close>

record loadedClass =
  lc_instance :: instance_obj
  lc_controller :: controllerClass

text \<open>The closure \<^verbatim>\<open>actionFn\<close>: over \<^verbatim>\<open>routeData\<close> and \<^verbatim>\<open>controllerClass\<close>.\<close>

record handler =
  h_routeData :: routeData
  h_controllerClass :: controllerClass

text \<open>A call \<^verbatim>\<open>this.router[verb](path, actionFn)\<close>.\<close>

record registration =
  reg_verb :: string
  reg_path :: string
  reg_handler :: handler

text \<open>
  The state of the router object: \<^verbatim>\<open>this.classesLoaded\<close> (\<open>None\<close> while undefined) and the
  registrations made on \<^verbatim>\<open>this.router\<close>, in order.
\<close>

record routerState =
  classesLoaded :: "loadedClass list option"
  registered :: "registration list"

definition initialState :: routerState where
  "initialState = \<lparr>classesLoaded = None, registered = []\<rparr>"

text \<open>
  \<^verbatim>\<open>addRoute\<close>: the wrapper is looked up in \<^verbatim>\<open>classesLoaded\<close> by the identity of
  \<^verbatim>\<open>routeData[5]\<close>, created and pushed when there is none; then the handler is
  registered under \<^verbatim>\<open>'/' + routeData[1].replace(/^\/+/, '')\<close>.
\<close>

definition addRoute :: "routerState \<Rightarrow> routeData \<Rightarrow> routerState" where
  "addRoute st rd =
     (let cl = (case classesLoaded st of None \<Rightarrow> [] | Some l \<Rightarrow> l);
          loadedClass = filter (\<lambda>item. obj_ref (lc_instance item) = obj_ref (rd_instance rd)) cl;
          (cc, cl) =
            (case loadedClass of
               item # _ \<Rightarrow> (lc_controller item, cl)
             | [] \<Rightarrow>
                 (let cc = \<lparr>cc_serial = length cl, cc_routeData = rd\<rparr>
                  in (cc, cl @ [\<lparr>lc_instance = rd_instance rd, lc_controller = cc\<rparr>])));
          actionFn = \<lparr>h_routeData = rd, h_controllerClass = cc\<rparr>
      in \<lparr>classesLoaded = Some cl,
          registered = registered st @
            [\<lparr>reg_verb = rd_method rd,
              reg_path = ''/'' @ dropWhile (\<lambda>c. c = CHR ''/'') (rd_path rd),
              reg_handler = actionFn\<rparr>]\<rparr>)"

section \<open>The route synthesizer\<close>

text \<open>
  The loop over the parameter names:
  \<^verbatim>\<open>
  if (args) {
    for (var i = 0; i < args.length; i++) {
      pathName += (pathName ? '/' : '') + ':' + args[i];
    }
  }
  \<close>
\<close>

fun appendParams :: "string \<Rightarrow> string list \<Rightarrow> string" where
  "appendParams pathName [] = pathName"
| "appendParams pathName (a # as) =
     appendParams (pathName @ (if pathName \<noteq> [] then ''/'' else []) @ '':'' @ a) as"

definition appendArgs :: "string \<Rightarrow> string list option \<Rightarrow> string" where
  "appendArgs pathName args = (case args of None \<Rightarrow> pathName | Some as \<Rightarrow> appendParams pathName as)"

text \<open>
  \<^verbatim>\<open>controllerData.controllerName == 'default' ? "" : controllerData.controllerName\<close>
\<close>

definition normalizedName :: "controllerData \<Rightarrow> string" where
  "normalizedName cd = (if controllerName cd = ''default'' then [] else controllerName cd)"

text \<open>\<^verbatim>\<open>controllerName + (pathName ? '/' + pathName : '')\<close>\<close>

definition joinPath :: "string \<Rightarrow> string \<Rightarrow> string" where
  "joinPath cname pathName = cname @ (if pathName \<noteq> [] then ''/'' @ pathName else [])"

text \<open>
  The \<^verbatim>\<open>routeData\<close> that the body of either loop builds for an eligible action;
  \<open>cn\<close> is the seventh argument, which only \<^verbatim>\<open>setFunctionActions\<close> passes.
\<close>

definition actionRoute :: "controllerData \<Rightarrow> instance_obj \<Rightarrow> string \<Rightarrow> jsval \<Rightarrow> routeData" where
  "actionRoute cd inst actionName cn =
     (let (method, pathName) = resolveAction actionName;
          args = getParameterNames (fn_toString (obj_get inst actionName));
          pathName = appendArgs pathName args;
          controllerName = normalizedName cd
      in \<lparr>rd_method = method,
          rd_path = joinPath controllerName pathName,
          rd_viewBaseName = viewBaseName cd,
          rd_actionName = actionName,
          rd_args = args,
          rd_instance = inst,
          rd_controllerName = cn\<rparr>)"

text \<open>
  The test that opens both loop bodies:
  \<^verbatim>\<open>typeof instance[actionName] === 'function' && actionName.charAt(0) !== '_'\<close>
\<close>

definition eligible :: "instance_obj \<Rightarrow> string \<Rightarrow> bool" where
  "eligible inst actionName =
     (is_function (obj_get inst actionName) \<and> charAt0 actionName \<noteq> ''_'')"

text \<open>
  \<^verbatim>\<open>setObjectActions\<close>: \<^verbatim>\<open>for (let actionName in allActions)\<close>, the third argument being
  the keys that the loop enumerates; \<^verbatim>\<open>addRoute\<close> is called with six arguments.
\<close>

fun setObjectActions :: "routerState \<Rightarrow> controllerData \<Rightarrow> instance_obj \<Rightarrow> string list \<Rightarrow> routerState" where
  "setObjectActions st cd inst [] = st"
| "setObjectActions st cd inst (actionName # rest) =
     setObjectActions
       (if eligible inst actionName
        then addRoute st (actionRoute cd inst actionName JUndefined)
        else st)
       cd inst rest"

text \<open>
  \<^verbatim>\<open>setFunctionActions\<close>: \<^verbatim>\<open>for (let actionName of allActions)\<close>; \<^verbatim>\<open>addRoute\<close> is called with
  the normalized controller name as seventh argument.
\<close>

fun setFunctionActions :: "routerState \<Rightarrow> controllerData \<Rightarrow> instance_obj \<Rightarrow> string list \<Rightarrow> routerState" where
  "setFunctionActions st cd inst [] = st"
| "setFunctionActions st cd inst (actionName # rest) =
     setFunctionActions
       (if eligible inst actionName
        then addRoute st (actionRoute cd inst actionName (JStr (normalizedName cd)))
        else st)
       cd inst rest"

text \<open>The object itself as instance: \<^verbatim>\<open>let instance = allActions\<close>.\<close>

definition objectInstance :: "nat \<Rightarrow> (string \<times> jsval) list \<Rightarrow> instance_obj" where
  "objectInstance ref props = \<lparr>obj_ref = ref, obj_get = lookup_prop props\<rparr>"

text \<open>
  \<^verbatim>\<open>
  loadImplicitRoutes(controllerData) {
    let controller = controllerData.controllerDef;
    if (typeof controller == "object") {
      let allActions = controller;
      let instance = allActions;
      this.setObjectActions(controllerData, instance, allActions);
    } else {
      let allActions = Object.getOwnPropertyNames(controller.prototype)
        .filter(x => x !== 'constructor' && x.charAt(0) !== '_');
      let instance = new controller();
      this.setFunctionActions(controllerData, instance, allActions);
    }
  }
  \<close>
\<close>

definition loadImplicitRoutes :: "routerState \<Rightarrow> controllerData \<Rightarrow> error + routerState" where
  "loadImplicitRoutes st cd =
     (case controllerDef cd of
        ObjectDef ref props \<Rightarrow>
          Inr (setObjectActions st cd (objectInstance ref props) (map fst props))
      | ClassDef names made \<Rightarrow>
          (let allActions = filter (\<lambda>x. x \<noteq> ''constructor'' \<and> charAt0 x \<noteq> ''_'') names
           in case made of
                Inl e \<Rightarrow> Inl e
              | Inr inst \<Rightarrow> Inr (setFunctionActions st cd inst allActions))
      | NoPrototype \<Rightarrow> Inl TypeError)"

section \<open>The dispatch wrapper\<close>

text \<open>
  An instance of \<^verbatim>\<open>controllerClass\<close>: the request (\<^verbatim>\<open>this.req\<close>) and the arguments of the
  constructor that the closure \<^verbatim>\<open>render\<close> keeps. Members it does not own (\<^verbatim>\<open>req\<close>,
  \<^verbatim>\<open>res\<close>, \<^verbatim>\<open>next\<close> and \<^verbatim>\<open>render\<close> are its own) are those of the prototype, the controller
  instance of \<open>ctx_class\<close>.
\<close>

record 's dispatchContext =
  ctx_req :: "'s request"
  ctx_method :: string
  ctx_pathName :: string
  ctx_viewBaseName :: string
  ctx_actionName :: string
  ctx_class :: controllerClass

text \<open>
  The call \<^verbatim>\<open>controller[routeData[3]].apply(controller, actionArgs)\<close>: the member of the
  context that is called, the context it is called on and the arguments.
\<close>

record 's invocation =
  inv_this :: "'s dispatchContext"
  inv_member :: string
  inv_args :: "jsval list"

text \<open>
  \<^verbatim>\<open>
  var actionFn = (req, res, next) => {
    let actionArgs = (routeData[4] || []).map(arg => {
      return req.params[arg];
    });
    var controller = new controllerClass(req, res, next, routeData[0], routeData[1], routeData[2], routeData[3]);
    controller[routeData[3]].apply(controller, actionArgs);
  };
  \<close>
\<close>

definition actionFn :: "handler \<Rightarrow> 's request \<Rightarrow> 's invocation" where
  "actionFn h req =
     (let routeData = h_routeData h;
          actionArgs = map (\<lambda>arg. req_params req arg)
                         (case rd_args routeData of None \<Rightarrow> [] | Some as \<Rightarrow> as);
          controller = \<lparr>ctx_req = req,
                         ctx_method = rd_method routeData,
                         ctx_pathName = rd_path routeData,
                         ctx_viewBaseName = rd_viewBaseName routeData,
                         ctx_actionName = rd_actionName routeData,
                         ctx_class = h_controllerClass h\<rparr>
      in \<lparr>inv_this = controller, inv_member = rd_actionName routeData, inv_args = actionArgs\<rparr>)"



subsection \<open>The render helper\<close>

text \<open>\<^verbatim>\<open>if (!data.k) data.k = x;\<close>\<close>

definition fillWhenFalsy :: "jsval \<Rightarrow> string \<Rightarrow> jsval \<Rightarrow> error + jsval" where
  "fillWhenFalsy data k x =
     (case getProp data k of
        Inl e \<Rightarrow> Inl e
      | Inr v \<Rightarrow> if \<not> truthy v then setProp data k x else Inr data)"

text \<open>
  The first lines of \<^verbatim>\<open>render\<close>, which read \<^verbatim>\<open>arguments\<close>:
  \<^verbatim>\<open>
  var viewName = actionName;
  var data = {};
  if (typeof(arguments[0]) === 'string') {
    viewName = arguments[0] || viewName;
    data = arguments[1] || data;
  } else {
    data = arguments[0] || data;
  }
  \<close>
\<close>

definition renderArguments :: "string \<Rightarrow> jsval list \<Rightarrow> string \<times> jsval" where
  "renderArguments actionName arguments =
     (let viewName = actionName; data = JObj []
      in case argument arguments 0 of
           JStr s \<Rightarrow>
             (if s \<noteq> [] then s else viewName,
              if truthy (argument arguments 1) then argument arguments 1 else data)
         | a0 \<Rightarrow> (viewName, if truthy a0 then a0 else data))"

text \<open>
  \<^verbatim>\<open>
  if(this.req.flash !== undefined){
    data.success = this.req.flash("success");
    data.error = this.req.flash("error");
    data.info = this.req.flash("info");
  }
  \<close>
\<close>

definition readFlash :: "'s request \<Rightarrow> jsval \<Rightarrow> 's \<Rightarrow> error + (jsval \<times> 's)" where
  "readFlash req data s =
     (case req_flash req of
        FlashUndefined \<Rightarrow> Inr (data, s)
      | FlashNotCallable \<Rightarrow> Inl TypeError
      | FlashReader flash \<Rightarrow>
          (let (v, s) = flash ''success'' s
           in case setProp data ''success'' v of
                Inl e \<Rightarrow> Inl e
              | Inr data \<Rightarrow>
                  (let (v, s) = flash ''error'' s
                   in case setProp data ''error'' v of
                        Inl e \<Rightarrow> Inl e
                      | Inr data \<Rightarrow>
                          (let (v, s) = flash ''info'' s
                           in case setProp data ''info'' v of
                                Inl e \<Rightarrow> Inl e
                              | Inr data \<Rightarrow> Inr (data, s)))))"

text \<open>
  \<^verbatim>\<open>this.render(...)\<close> called on a context: the call \<^verbatim>\<open>res.render(path, data)\<close> that it ends
  with and the store of the flash reader, or the exception. \<^verbatim>\<open>routeData[6]\<close> is read
  from the \<^verbatim>\<open>routeData\<close> of the call of \<^verbatim>\<open>addRoute\<close> that created the wrapper.
\<close>

definition render :: "'s dispatchContext \<Rightarrow> jsval list \<Rightarrow> 's \<Rightarrow> error + ((string \<times> jsval) \<times> 's)" where
  "render this arguments s =
     (let (viewName, data) = renderArguments (ctx_actionName this) arguments
      in case fillWhenFalsy data ''controllerName''
                (rd_controllerName (cc_routeData (ctx_class this))) of
           Inl e \<Rightarrow> Inl e
         | Inr data \<Rightarrow>
        (case fillWhenFalsy data ''actionName'' (JStr (ctx_actionName this)) of
           Inl e \<Rightarrow> Inl e
         | Inr data \<Rightarrow>
        (case fillWhenFalsy data ''session'' (req_session (ctx_req this)) of
           Inl e \<Rightarrow> Inl e
         | Inr data \<Rightarrow>
        (case readFlash (ctx_req this) data s of
           Inl e \<Rightarrow> Inl e
         | Inr (data, s) \<Rightarrow>
             Inr ((ctx_viewBaseName this @ ''/'' @ viewName, data), s)))))"

section \<open>Observations and example controllers\<close>

text \<open>
  What the statements below read off a value or a state: a property of the data that
  reached the renderer as \<^verbatim>\<open>data.k\<close> reads it (\<open>propOf\<close>) and as an own property that is
  present or absent (\<open>ownProp\<close>), whether a value is an object (a function is one), the entries of
  \<^verbatim>\<open>classesLoaded\<close>, and the text \<^verbatim>\<open>:p1/.../:pn\<close> of the capture segments.

  A parameter list as it is declared in the plain case is the text \<open>declaredWith ps seps\<close>:
  the identifiers \<open>ps\<close> with the separators \<open>seps\<close> between them, a separator being a
  comma with blanks (white space other than line terminators) before and after it;
  where \<open>seps\<close> runs out the separator is the comma alone.
\<close>

definition propOf :: "jsval \<Rightarrow> string \<Rightarrow> jsval" where
  "propOf v k = (case getProp v k of Inl e \<Rightarrow> JUndefined | Inr x \<Rightarrow> x)"

fun ownProp :: "jsval \<Rightarrow> string \<Rightarrow> jsval option" where
  "ownProp (JObj ps) k = map_of ps k"
| "ownProp (JFun src ps) k = map_of ps k"
| "ownProp v k = None"

fun isObject :: "jsval \<Rightarrow> bool" where
  "isObject (JObj ps) = True"
| "isObject (JFun src ps) = True"
| "isObject v = False"

definition loaded :: "routerState \<Rightarrow> loadedClass list" where
  "loaded st = (case classesLoaded st of None \<Rightarrow> [] | Some l \<Rightarrow> l)"





text \<open>
  The registrations of a load as verb, registered path and action name; none when the
  load threw.
\<close>

definition routeTable :: "error + routerState \<Rightarrow> (string \<times> string \<times> string) list" where
  "routeTable r =
     (case r of
        Inl e \<Rightarrow> []
      | Inr st \<Rightarrow>
          map (\<lambda>reg. (reg_verb reg, reg_path reg, rd_actionName (h_routeData (reg_handler reg))))
            (registered st))"

text \<open>
  What the renderer receives when the handler of the \<open>i\<close>-th registration of a load is
  dispatched on a request and the action calls \<^verbatim>\<open>this.render(...arguments)\<close>.
\<close>

definition renderedAt ::
    "error + routerState \<Rightarrow> nat \<Rightarrow> unit request \<Rightarrow> jsval list \<Rightarrow> error + (string \<times> jsval)" where
  "renderedAt r i req arguments =
     (case r of
        Inl e \<Rightarrow> Inl e
      | Inr st \<Rightarrow>
          (case render (inv_this (actionFn (reg_handler (registered st ! i)) req)) arguments () of
             Inl e \<Rightarrow> Inl e
           | Inr (call, s) \<Rightarrow> Inr call))"


text \<open>
  \<^verbatim>\<open>homeController.js\<close> of the README, as an object: \<^verbatim>\<open>getSomething\<close>,
  \<^verbatim>\<open>getWithParameters(foo, bar)\<close> and the hidden \<^verbatim>\<open>_someHiddenMethod\<close>.
\<close>

definition homeProps :: "(string \<times> jsval) list" where
  "homeProps =
     [(''getSomething'', JFun ''function() { this.render({}); }'' []),
      (''getWithParameters'', JFun ''function(foo, bar) { this.res.json({}); }'' []),
      (''_someHiddenMethod'', JFun ''function() { this.res.send(1); }'' [])]"

definition homeController :: controllerData where
  "homeController =
     \<lparr>controllerDef = ObjectDef 1 homeProps, controllerName = ''home'', viewBaseName = ''home''\<rparr>"

text \<open>An object with an enumerable function-valued property named \<^verbatim>\<open>constructor\<close>.\<close>

definition constructorController :: controllerData where
  "constructorController =
     \<lparr>controllerDef = ObjectDef 2 [(''constructor'', JFun ''function() { }'' [])],
      controllerName = ''home'',
      viewBaseName = ''home''\<rparr>"

text \<open>
  \<^verbatim>\<open>defaultController.js\<close>, a class with the method \<^verbatim>\<open>index(){ this.render({}); }\<close>.
\<close>

definition defaultInstance :: instance_obj where
  "defaultInstance =
     \<lparr>obj_ref = 3,
      obj_get = (\<lambda>k. if k = ''index'' then JFun ''index(){ this.render({}); }'' []
                     else JUndefined)\<rparr>"

definition defaultController :: controllerData where
  "defaultController =
     \<lparr>controllerDef = ClassDef [''constructor'', ''index''] (Inr defaultInstance),
      controllerName = ''default'',
      viewBaseName = ''default''\<rparr>"





text \<open>A request without session and flash middleware, with the captures \<^verbatim>\<open>foo\<close> and \<^verbatim>\<open>bar\<close>.\<close>

definition plainRequest :: "unit request" where
  "plainRequest =
     \<lparr>req_params = (\<lambda>k. if k = ''foo'' then JStr ''1''
                          else if k = ''bar'' then JStr ''2'' else JUndefined),
      req_session = JUndefined,
      req_flash = FlashUndefined\<rparr>"

text \<open>
  A request with a session and a flash reader; the store of the reader is the number of
  messages read so far, which it returns.
\<close>

definition flashRequest :: "nat request" where
  "flashRequest =
     \<lparr>req_params = (\<lambda>k. JUndefined),
      req_session = JObj [(''user'', JStr ''ann'')],
      req_flash = FlashReader (\<lambda>k n. (JObj [(''key'', JStr k), (''read'', JNum (int n))], Suc n))\<rparr>"

text \<open>
  The handler of the route of \<^verbatim>\<open>getSomething\<close> as the first registration of the router
  makes it, and the contexts it builds for the two requests.
\<close>

definition somethingHandler :: handler where
  "somethingHandler =
     reg_handler (last (registered (addRoute initialState
       (actionRoute homeController (objectInstance 1 homeProps) ''getSomething'' JUndefined))))"

definition plainContext :: "unit dispatchContext" where
  "plainContext = inv_this (actionFn somethingHandler plainRequest)"

definition flashContext :: "nat dispatchContext" where
  "flashContext = inv_this (actionFn somethingHandler flashRequest)"

text \<open>The state after the load of \<^verbatim>\<open>defaultController.js\<close> into a fresh router.\<close>

definition defaultRoutes :: routerState where
  "defaultRoutes = setFunctionActions initialState defaultController defaultInstance [''index'']"

section \<open>Properties of the action naming resolver\<close>

lemmas resolve_defs =
  resolveAction_def js_trim_def is_space_def getMethod_def implicitMethodPattern_exec_def
  implicitMethodPattern_test_def implicitMethodPattern_strip_def re_alts_def re_lit_def
  toLowerCase_def toLowerCase_char_def charAt0_def char_of_def bit_iff_odd

text \<open>
  Claim C5. The raw action name \<^verbatim>\<open>index\<close> resolves to the verb \<^verbatim>\<open>get\<close> with the empty bare
  name, and a raw name that is exactly a verb token resolves to that verb with the
  empty bare name. With no parameter to append (the extractor returned \<^verbatim>\<open>null\<close> or the
  empty list) the path of such an action is the controller segment alone.
\<close>

theorem index_and_verb_tokens_map_to_root:
  "resolveAction ''index'' = (''get'', [])
   \<and> resolveAction ''get'' = (''get'', [])
   \<and> resolveAction ''post'' = (''post'', [])
   \<and> resolveAction ''put'' = (''put'', [])
   \<and> resolveAction ''patch'' = (''patch'', [])
   \<and> resolveAction ''delete'' = (''delete'', [])
   \<and> joinPath cname (appendArgs (snd (resolveAction ''index'')) None) = cname
   \<and> joinPath cname (appendArgs (snd (resolveAction ''index'')) (Some [])) = cname
   \<and> joinPath cname (appendArgs (snd (resolveAction ''post'')) None) = cname
   \<and> joinPath cname (appendArgs (snd (resolveAction ''post'')) (Some [])) = cname"
proof -
  have i: "resolveAction ''index'' = (''get'', [])" by (simp add: resolve_defs)
  have g: "resolveAction ''get'' = (''get'', [])" by (simp add: resolve_defs)
  have p: "resolveAction ''post'' = (''post'', [])" by (simp add: resolve_defs)
  have u: "resolveAction ''put'' = (''put'', [])" by (simp add: resolve_defs)
  have a: "resolveAction ''patch'' = (''patch'', [])" by (simp add: resolve_defs)
  have d: "resolveAction ''delete'' = (''delete'', [])" by (simp add: resolve_defs)
  show ?thesis
    by (simp add: i g p u a d joinPath_def appendArgs_def)
qed

text \<open>
  Claim C3, as amended. The prefix test is case-sensitive: for a trimmed raw name that
  starts with one of the lower-case tokens \<^verbatim>\<open>get\<close>, \<^verbatim>\<open>post\<close>, \<^verbatim>\<open>put\<close>, \<^verbatim>\<open>patch\<close>, \<^verbatim>\<open>delete\<close> the
  verb is that token and the bare name is the rest with its first character in lower
  case; any other name resolves to the verb \<^verbatim>\<open>get\<close> with the name unchanged, except
  \<^verbatim>\<open>index\<close>, whose bare name is empty.
\<close>

theorem resolveAction_case_sensitive_prefix:
  "(t \<in> set [''get'', ''post'', ''put'', ''patch'', ''delete''] \<and> js_trim raw = t @ rest \<longrightarrow>
      resolveAction raw = (t, toLowerCase (charAt0 rest) @ drop 1 rest))
   \<and> ((\<forall>u \<in> set [''get'', ''post'', ''put'', ''patch'', ''delete''].
          take (length u) (js_trim raw) \<noteq> u) \<longrightarrow>
      resolveAction raw = (''get'', if js_trim raw = ''index'' then [] else js_trim raw))"
proof -
  have A: "resolveAction raw = (t, toLowerCase (charAt0 rest) @ drop 1 rest)"
    if t: "t \<in> set [''get'', ''post'', ''put'', ''patch'', ''delete'']"
      and n: "js_trim raw = t @ rest"
  proof -
    from t consider "t = ''get''" | "t = ''post''" | "t = ''put''" | "t = ''patch''"
      | "t = ''delete''" by auto
    then show ?thesis
    proof cases
      case 1 then show ?thesis using n
        by (simp add: resolveAction_def getMethod_def implicitMethodPattern_exec_def
          implicitMethodPattern_test_def implicitMethodPattern_strip_def re_alts_def re_lit_def
          toLowerCase_def toLowerCase_char_def charAt0_def char_of_def bit_iff_odd)
    next
      case 2 then show ?thesis using n
        by (simp add: resolveAction_def getMethod_def implicitMethodPattern_exec_def
          implicitMethodPattern_test_def implicitMethodPattern_strip_def re_alts_def re_lit_def
          toLowerCase_def toLowerCase_char_def charAt0_def char_of_def bit_iff_odd)
    next
      case 3 then show ?thesis using n
        by (simp add: resolveAction_def getMethod_def implicitMethodPattern_exec_def
          implicitMethodPattern_test_def implicitMethodPattern_strip_def re_alts_def re_lit_def
          toLowerCase_def toLowerCase_char_def charAt0_def char_of_def bit_iff_odd)
    next
      case 4 then show ?thesis using n
        by (simp add: resolveAction_def getMethod_def implicitMethodPattern_exec_def
          implicitMethodPattern_test_def implicitMethodPattern_strip_def re_alts_def re_lit_def
          toLowerCase_def toLowerCase_char_def charAt0_def char_of_def bit_iff_odd)
    next
      case 5 then show ?thesis using n
        by (simp add: resolveAction_def getMethod_def implicitMethodPattern_exec_def
          implicitMethodPattern_test_def implicitMethodPattern_strip_def re_alts_def re_lit_def
          toLowerCase_def toLowerCase_char_def charAt0_def char_of_def bit_iff_odd)
    qed
  qed
  have B: "resolveAction raw = (''get'', if js_trim raw = ''index'' then [] else js_trim raw)"
    if "\<forall>u \<in> set [''get'', ''post'', ''put'', ''patch'', ''delete''].
          take (length u) (js_trim raw) \<noteq> u"
  proof -
    from that have "implicitMethodPattern_exec (js_trim raw) = None"
      by (simp add: implicitMethodPattern_exec_def re_alts_def re_lit_def)
    then show ?thesis
      by (simp add: resolveAction_def getMethod_def implicitMethodPattern_test_def Let_def)
        (simp add: implicitMethodPattern_exec_def re_alts_def re_lit_def)
  qed
  from A B show ?thesis by blast
qed

theorem resolveAction_case_sensitive_prefix_witness:
  "''get'' \<in> set [''get'', ''post'', ''put'', ''patch'', ''delete'']
   \<and> js_trim '' getUser'' = ''get'' @ ''User''
   \<and> resolveAction '' getUser'' = (''get'', ''user'')
   \<and> take 3 (js_trim ''news'') \<noteq> ''get'' \<and> take 4 (js_trim ''news'') \<noteq> ''post''
   \<and> take 3 (js_trim ''news'') \<noteq> ''put'' \<and> take 5 (js_trim ''news'') \<noteq> ''patch''
   \<and> take 6 (js_trim ''news'') \<noteq> ''delete''
   \<and> resolveAction ''news'' = (''get'', ''news'')"
proof -
  have h1: "''get'' \<in> set [''get'', ''post'', ''put'', ''patch'', ''delete'']" by simp
  have h2: "js_trim '' getUser'' = ''get'' @ ''User''" by (simp add: js_trim_def is_space_def)
  have n: "js_trim ''news'' = ''news''" by (simp add: js_trim_def is_space_def)
  have h3: "\<forall>u \<in> set [''get'', ''post'', ''put'', ''patch'', ''delete''].
          take (length u) (js_trim ''news'') \<noteq> u" by (simp add: n)
  have c1: "resolveAction '' getUser'' = (''get'', ''user'')"
    using resolveAction_case_sensitive_prefix [of "''get''" "'' getUser''" "''User''"] h1 h2
    by (simp add: toLowerCase_def toLowerCase_char_def charAt0_def char_of_def bit_iff_odd)
  have c2: "resolveAction ''news'' = (''get'', ''news'')"
    using resolveAction_case_sensitive_prefix [of "''get''" "''news''" "''User''"] h3
    by (simp add: n)
  from h1 h2 c1 c2 show ?thesis by (simp add: n)
qed

text \<open>
  Claim C3 as stated fails: \<^verbatim>\<open>PostUser\<close> starts with \<^verbatim>\<open>post\<close> when case is ignored, and
  resolves to the verb \<^verbatim>\<open>get\<close> with the name unchanged.
\<close>

theorem resolveAction_PostUser_counterexample:
  "toLowerCase (take 4 ''PostUser'') = ''post''
   \<and> resolveAction ''PostUser'' = (''get'', ''PostUser'')
   \<and> resolveAction ''PostUser'' \<noteq> (''post'', ''user'')"
  by (simp add: resolve_defs)

section \<open>Properties of the registrar and the synthesizer\<close>

lemma loaded_addRoute:
  "loaded (addRoute st rd) =
     (case filter (\<lambda>item. obj_ref (lc_instance item) = obj_ref (rd_instance rd)) (loaded st) of
        item # _ \<Rightarrow> loaded st
      | [] \<Rightarrow> loaded st @ [\<lparr>lc_instance = rd_instance rd,
                            lc_controller = \<lparr>cc_serial = length (loaded st), cc_routeData = rd\<rparr>\<rparr>])"
  by (simp add: addRoute_def loaded_def Let_def split: list.splits)

lemma registered_addRoute:
  "registered (addRoute st rd) =
     registered st @
       [\<lparr>reg_verb = rd_method rd,
         reg_path = ''/'' @ dropWhile (\<lambda>c. c = CHR ''/'') (rd_path rd),
         reg_handler =
           \<lparr>h_routeData = rd,
            h_controllerClass =
              (case filter (\<lambda>item. obj_ref (lc_instance item) = obj_ref (rd_instance rd)) (loaded st) of
                 item # _ \<Rightarrow> lc_controller item
               | [] \<Rightarrow> \<lparr>cc_serial = length (loaded st), cc_routeData = rd\<rparr>)\<rparr>\<rparr>]"
  by (simp add: addRoute_def loaded_def Let_def split: list.splits)

lemma actionRoute_fields:
  "rd_args (actionRoute cd inst a cn) = getParameterNames (fn_toString (obj_get inst a))"
  "rd_path (actionRoute cd inst a cn) =
     joinPath (normalizedName cd)
       (appendArgs (snd (resolveAction a)) (getParameterNames (fn_toString (obj_get inst a))))"
  "rd_actionName (actionRoute cd inst a cn) = a"
  "rd_instance (actionRoute cd inst a cn) = inst"
  "rd_method (actionRoute cd inst a cn) = fst (resolveAction a)"
  "rd_viewBaseName (actionRoute cd inst a cn) = viewBaseName cd"
  "rd_controllerName (actionRoute cd inst a cn) = cn"
  by (simp_all add: actionRoute_def Let_def split: prod.splits)

text \<open>
  Each loop appends to the registrations one \<^verbatim>\<open>routeData\<close> per eligible name, in the
  order of the names.
\<close>

lemma registered_setObjectActions:
  "\<exists>new. registered (setObjectActions st cd inst names) = registered st @ new
     \<and> map (\<lambda>reg. h_routeData (reg_handler reg)) new =
         map (\<lambda>a. actionRoute cd inst a JUndefined) (filter (eligible inst) names)"
proof (induction names arbitrary: st)
  case Nil show ?case by simp
next
  case (Cons a names)
  show ?case
  proof (cases "eligible inst a")
    case True
    from Cons.IH [of "addRoute st (actionRoute cd inst a JUndefined)"] obtain new where
      "registered (setObjectActions (addRoute st (actionRoute cd inst a JUndefined)) cd inst names)
         = registered (addRoute st (actionRoute cd inst a JUndefined)) @ new"
      "map (\<lambda>reg. h_routeData (reg_handler reg)) new =
         map (\<lambda>a. actionRoute cd inst a JUndefined) (filter (eligible inst) names)" by blast
    with True show ?thesis by (simp add: registered_addRoute)
  next
    case False
    with Cons.IH [of st] show ?thesis by simp
  qed
qed

lemma registered_setFunctionActions:
  "\<exists>new. registered (setFunctionActions st cd inst names) = registered st @ new
     \<and> map (\<lambda>reg. h_routeData (reg_handler reg)) new =
         map (\<lambda>a. actionRoute cd inst a (JStr (normalizedName cd))) (filter (eligible inst) names)"
proof (induction names arbitrary: st)
  case Nil show ?case by simp
next
  case (Cons a names)
  show ?case
  proof (cases "eligible inst a")
    case True
    from Cons.IH [of "addRoute st (actionRoute cd inst a (JStr (normalizedName cd)))"]
    obtain new where
      "registered (setFunctionActions (addRoute st (actionRoute cd inst a (JStr (normalizedName cd)))) cd inst names)
         = registered (addRoute st (actionRoute cd inst a (JStr (normalizedName cd)))) @ new"
      "map (\<lambda>reg. h_routeData (reg_handler reg)) new =
         map (\<lambda>a. actionRoute cd inst a (JStr (normalizedName cd))) (filter (eligible inst) names)"
      by blast
    with True show ?thesis by (simp add: registered_addRoute)
  next
    case False
    with Cons.IH [of st] show ?thesis by simp
  qed
qed

lemma map_actionName_actionRoute:
  "map (\<lambda>reg. rd_actionName (h_routeData (reg_handler reg))) new =
     map rd_actionName (map (\<lambda>reg. h_routeData (reg_handler reg)) new)"
  by simp

text \<open>
  Claim C6. In either variant, a raw action name that starts with the underscore is
  not among the actions of the routes that the load registers: the registrations of the
  load are the ones made before followed by new ones, and none of the new ones is for
  that name.
\<close>

theorem hidden_actions_get_no_route:
  assumes "charAt0 a = ''_''" and "loadImplicitRoutes st cd = Inr st'"
  shows "\<exists>new. registered st' = registered st @ new
           \<and> a \<notin> set (map (\<lambda>reg. rd_actionName (h_routeData (reg_handler reg))) new)"
proof (cases "controllerDef cd")
  case (ObjectDef ref props)
  with assms(2) have st': "st' = setObjectActions st cd (objectInstance ref props) (map fst props)"
    by (simp add: loadImplicitRoutes_def)
  from registered_setObjectActions [of st cd "objectInstance ref props" "map fst props"]
  obtain new where new: "registered st' = registered st @ new"
    "map (\<lambda>reg. h_routeData (reg_handler reg)) new =
       map (\<lambda>a. actionRoute cd (objectInstance ref props) a JUndefined)
         (filter (eligible (objectInstance ref props)) (map fst props))"
    unfolding st' by blast
  have "a \<notin> set (map (\<lambda>reg. rd_actionName (h_routeData (reg_handler reg))) new)"
    unfolding map_actionName_actionRoute new(2) using assms(1)
    by (auto simp: actionRoute_fields eligible_def)
  with new(1) show ?thesis by blast
next
  case (ClassDef names made)
  with assms(2) obtain inst where
    st': "st' = setFunctionActions st cd inst
                  (filter (\<lambda>x. x \<noteq> ''constructor'' \<and> charAt0 x \<noteq> ''_'') names)"
    by (auto simp: loadImplicitRoutes_def split: sum.splits)
  from registered_setFunctionActions
    [of st cd inst "filter (\<lambda>x. x \<noteq> ''constructor'' \<and> charAt0 x \<noteq> ''_'') names"]
  obtain new where new: "registered st' = registered st @ new"
    "map (\<lambda>reg. h_routeData (reg_handler reg)) new =
       map (\<lambda>a. actionRoute cd inst a (JStr (normalizedName cd)))
         (filter (eligible inst) (filter (\<lambda>x. x \<noteq> ''constructor'' \<and> charAt0 x \<noteq> ''_'') names))"
    unfolding st' by blast
  have "a \<notin> set (map (\<lambda>reg. rd_actionName (h_routeData (reg_handler reg))) new)"
    unfolding map_actionName_actionRoute new(2) using assms(1)
    by (auto simp: actionRoute_fields eligible_def)
  with new(1) show ?thesis by blast
next
  case NoPrototype
  with assms(2) show ?thesis by (simp add: loadImplicitRoutes_def)
qed

theorem hidden_actions_get_no_route_witness:
  "charAt0 ''_someHiddenMethod'' = ''_''
   \<and> loadImplicitRoutes initialState homeController =
       Inr (setObjectActions initialState homeController (objectInstance 1 homeProps)
              (map fst homeProps))
   \<and> (\<exists>new. registered (setObjectActions initialState homeController
                (objectInstance 1 homeProps) (map fst homeProps))
            = registered initialState @ new
          \<and> ''_someHiddenMethod'' \<notin>
              set (map (\<lambda>reg. rd_actionName (h_routeData (reg_handler reg))) new))"
proof -
  have h1: "charAt0 ''_someHiddenMethod'' = ''_''" by (simp add: charAt0_def)
  have h2: "loadImplicitRoutes initialState homeController =
       Inr (setObjectActions initialState homeController (objectInstance 1 homeProps)
              (map fst homeProps))"
    by (simp add: loadImplicitRoutes_def homeController_def)
  from hidden_actions_get_no_route [OF h1 h2] h1 h2 show ?thesis by blast
qed

text \<open>
  Claim C4, as amended. In the flat-actions variant every enumerable function-valued
  property whose name does not start with the underscore becomes an action, a property
  named \<^verbatim>\<open>constructor\<close> included: the load registers one route per such property, in
  the order of enumeration, and the instance of each route is the definition object
  itself.
\<close>

theorem object_actions_are_the_visible_functions:
  assumes "controllerDef cd = ObjectDef ref props"
  shows "\<exists>st' new. loadImplicitRoutes st cd = Inr st'
           \<and> registered st' = registered st @ new
           \<and> map (\<lambda>reg. rd_actionName (h_routeData (reg_handler reg))) new =
               filter (\<lambda>a. is_function (lookup_prop props a) \<and> charAt0 a \<noteq> ''_'') (map fst props)
           \<and> list_all (\<lambda>reg. rd_instance (h_routeData (reg_handler reg)) = objectInstance ref props
                            \<and> obj_ref (rd_instance (h_routeData (reg_handler reg))) = ref) new"
proof -
  from assms have st':
    "loadImplicitRoutes st cd = Inr (setObjectActions st cd (objectInstance ref props) (map fst props))"
    by (simp add: loadImplicitRoutes_def)
  from registered_setObjectActions [of st cd "objectInstance ref props" "map fst props"]
  obtain new where new:
    "registered (setObjectActions st cd (objectInstance ref props) (map fst props)) = registered st @ new"
    "map (\<lambda>reg. h_routeData (reg_handler reg)) new =
       map (\<lambda>a. actionRoute cd (objectInstance ref props) a JUndefined)
         (filter (eligible (objectInstance ref props)) (map fst props))"
    by blast
  have e: "eligible (objectInstance ref props) =
             (\<lambda>a. is_function (lookup_prop props a) \<and> charAt0 a \<noteq> ''_'')"
    by (simp add: eligible_def objectInstance_def fun_eq_iff)
  have n: "map (\<lambda>reg. rd_actionName (h_routeData (reg_handler reg))) new =
             filter (\<lambda>a. is_function (lookup_prop props a) \<and> charAt0 a \<noteq> ''_'') (map fst props)"
    unfolding map_actionName_actionRoute new(2) e
    by (simp add: actionRoute_fields comp_def)
  have "list_all (\<lambda>rd. rd_instance rd = objectInstance ref props)
          (map (\<lambda>reg. h_routeData (reg_handler reg)) new)"
    unfolding new(2) by (simp add: list_all_iff actionRoute_fields)
  then have i: "list_all (\<lambda>reg. rd_instance (h_routeData (reg_handler reg)) = objectInstance ref props
                            \<and> obj_ref (rd_instance (h_routeData (reg_handler reg))) = ref) new"
    by (simp add: list_all_iff objectInstance_def)
  from st' new(1) n i show ?thesis by blast
qed

theorem object_actions_are_the_visible_functions_witness:
  "controllerDef homeController = ObjectDef 1 homeProps
   \<and> (\<exists>st' new. loadImplicitRoutes initialState homeController = Inr st'
         \<and> registered st' = registered initialState @ new
         \<and> map (\<lambda>reg. rd_actionName (h_routeData (reg_handler reg))) new =
             [''getSomething'', ''getWithParameters''])"
proof -
  have h: "controllerDef homeController = ObjectDef 1 homeProps"
    by (simp add: homeController_def)
  have f: "filter (\<lambda>a. is_function (lookup_prop homeProps a) \<and> charAt0 a \<noteq> ''_'') (map fst homeProps)
             = [''getSomething'', ''getWithParameters'']"
    by (simp add: homeProps_def lookup_prop_def charAt0_def)
  from object_actions_are_the_visible_functions [OF h, of initialState]
  obtain st' new where "loadImplicitRoutes initialState homeController = Inr st'"
    "registered st' = registered initialState @ new"
    "map (\<lambda>reg. rd_actionName (h_routeData (reg_handler reg))) new =
       filter (\<lambda>a. is_function (lookup_prop homeProps a) \<and> charAt0 a \<noteq> ''_'') (map fst homeProps)"
    by blast
  with h f show ?thesis by auto
qed

text \<open>
  Claim C4 as stated fails: an object whose only enumerable property is a function named
  \<^verbatim>\<open>constructor\<close> gets a route for it.
\<close>

theorem constructor_property_counterexample:
  "routeTable (loadImplicitRoutes initialState constructorController) =
     [(''get'', ''/home/constructor'', ''constructor'')]"
  by code_simp


subsection \<open>The extractor on a plain signature\<close>





































subsection \<open>The cache of wrappers\<close>

lemma loaded_addRoute_extends: "\<exists>ext. loaded (addRoute st rd) = loaded st @ ext"
  by (simp add: loaded_addRoute split: list.splits)

lemma loaded_foldl_extends: "\<exists>ext. loaded (foldl addRoute st rds) = loaded st @ ext"
proof (induction rds arbitrary: st)
  case Nil show ?case by simp
next
  case (Cons rd rds)
  obtain e1 where e1: "loaded (addRoute st rd) = loaded st @ e1"
    using loaded_addRoute_extends by blast
  obtain e2 where "loaded (foldl addRoute (addRoute st rd) rds) = loaded (addRoute st rd) @ e2"
    using Cons.IH by blast
  with e1 show ?case by simp
qed

lemma filter_loaded_foldl:
  assumes "filter P (loaded st) = item # rest"
  shows "\<exists>rest'. filter P (loaded (foldl addRoute st rds)) = item # rest'"
proof -
  obtain ext where "loaded (foldl addRoute st rds) = loaded st @ ext"
    using loaded_foldl_extends by blast
  with assms show ?thesis by simp
qed

lemma addRoute_cached:
  assumes "filter (\<lambda>item. obj_ref (lc_instance item) = obj_ref (rd_instance rd)) (loaded st)
             = item # rest"
  shows "loaded (addRoute st rd) = loaded st"
    and "h_controllerClass (reg_handler (last (registered (addRoute st rd)))) = lc_controller item"
  using assms by (simp_all add: loaded_addRoute registered_addRoute)

lemma addRoute_caches:
  "\<exists>item rest.
     filter (\<lambda>item. obj_ref (lc_instance item) = obj_ref (rd_instance rd)) (loaded (addRoute st rd))
       = item # rest
     \<and> h_controllerClass (reg_handler (last (registered (addRoute st rd)))) = lc_controller item"
  by (cases "filter (\<lambda>item. obj_ref (lc_instance item) = obj_ref (rd_instance rd)) (loaded st)")
    (simp_all add: loaded_addRoute registered_addRoute)

text \<open>
  Claim C8. After a route has been registered for a controller instance, a later
  registration for an instance of the same identity, whatever was registered in
  between, uses the wrapper of the first one and adds no entry to \<^verbatim>\<open>classesLoaded\<close>; a
  wrapper is created exactly where an entry is pushed, so none is created. No
  registration removes an entry: the cache before the first registration is an initial
  part of the cache after the last.
\<close>

theorem wrapper_created_once_per_instance:
  assumes same: "obj_ref (rd_instance rd2) = obj_ref (rd_instance rd1)"
  shows "let st1 = addRoute st rd1; st2 = foldl addRoute st1 rds; st3 = addRoute st2 rd2
         in h_controllerClass (reg_handler (last (registered st3)))
              = h_controllerClass (reg_handler (last (registered st1)))
          \<and> loaded st3 = loaded st2
          \<and> take (length (loaded st)) (loaded st3) = loaded st"
proof -
  define st1 where "st1 = addRoute st rd1"
  define st2 where "st2 = foldl addRoute st1 rds"
  define st3 where "st3 = addRoute st2 rd2"
  let ?P = "\<lambda>item. obj_ref (lc_instance item) = obj_ref (rd_instance rd1)"
  obtain item rest where f1: "filter ?P (loaded st1) = item # rest"
    and c1: "h_controllerClass (reg_handler (last (registered st1))) = lc_controller item"
    unfolding st1_def using addRoute_caches by blast
  obtain rest' where f2: "filter ?P (loaded st2) = item # rest'"
    unfolding st2_def using filter_loaded_foldl [OF f1] by blast
  from f2 same have f2':
    "filter (\<lambda>item. obj_ref (lc_instance item) = obj_ref (rd_instance rd2)) (loaded st2)
       = item # rest'"
    by simp
  have a: "h_controllerClass (reg_handler (last (registered st3))) = lc_controller item"
    and b: "loaded st3 = loaded st2"
    unfolding st3_def using addRoute_cached [OF f2'] by simp_all
  obtain e1 where e1: "loaded st1 = loaded st @ e1"
    unfolding st1_def using loaded_addRoute_extends by blast
  obtain e2 where e2: "loaded st2 = loaded st1 @ e2"
    unfolding st2_def using loaded_foldl_extends by blast
  have c: "take (length (loaded st)) (loaded st3) = loaded st"
    by (simp add: b e1 e2)
  show ?thesis
    using a b c c1 by (simp add: st1_def st2_def st3_def Let_def)
qed

theorem wrapper_created_once_per_instance_witness:
  "obj_ref (rd_instance (actionRoute homeController (objectInstance 1 homeProps) ''getWithParameters'' JUndefined))
     = obj_ref (rd_instance (actionRoute homeController (objectInstance 1 homeProps) ''getSomething'' JUndefined))
   \<and> map (\<lambda>reg. cc_serial (h_controllerClass (reg_handler reg)))
       (registered
         (addRoute
           (foldl addRoute
             (addRoute initialState
               (actionRoute homeController (objectInstance 1 homeProps) ''getSomething'' JUndefined))
             [actionRoute defaultController defaultInstance ''index'' (JStr [])])
           (actionRoute homeController (objectInstance 1 homeProps) ''getWithParameters'' JUndefined)))
       = [0, 1, 0]
   \<and> h_controllerClass (reg_handler (last (registered
         (addRoute
           (foldl addRoute
             (addRoute initialState
               (actionRoute homeController (objectInstance 1 homeProps) ''getSomething'' JUndefined))
             [actionRoute defaultController defaultInstance ''index'' (JStr [])])
           (actionRoute homeController (objectInstance 1 homeProps) ''getWithParameters'' JUndefined)))))
     = h_controllerClass (reg_handler (last (registered
         (addRoute initialState
           (actionRoute homeController (objectInstance 1 homeProps) ''getSomething'' JUndefined)))))"
proof -
  have h: "obj_ref (rd_instance (actionRoute homeController (objectInstance 1 homeProps) ''getWithParameters'' JUndefined))
     = obj_ref (rd_instance (actionRoute homeController (objectInstance 1 homeProps) ''getSomething'' JUndefined))"
    by (simp add: actionRoute_fields)
  have l0: "loaded initialState = []" by (simp add: loaded_def initialState_def)
  have r0: "registered initialState = []" by (simp add: initialState_def)
  have s: "map (\<lambda>reg. cc_serial (h_controllerClass (reg_handler reg)))
       (registered
         (addRoute
           (foldl addRoute
             (addRoute initialState
               (actionRoute homeController (objectInstance 1 homeProps) ''getSomething'' JUndefined))
             [actionRoute defaultController defaultInstance ''index'' (JStr [])])
           (actionRoute homeController (objectInstance 1 homeProps) ''getWithParameters'' JUndefined)))
       = [0, 1, 0]"
    by (simp add: registered_addRoute loaded_addRoute actionRoute_fields objectInstance_def
        defaultInstance_def l0 r0)
  from wrapper_created_once_per_instance
    [OF h, of initialState "[actionRoute defaultController defaultInstance ''index'' (JStr [])]"]
    h s
  show ?thesis by (simp add: Let_def)
qed

section \<open>Properties of the render helper\<close>

lemma getProp_object: "isObject d \<Longrightarrow> getProp d k = Inr (propOf d k)"
  by (cases d) (simp_all add: propOf_def)

lemma setProp_object:
  assumes "isObject d"
  shows "\<exists>d'. setProp d k x = Inr d' \<and> isObject d'
           \<and> (\<forall>j. ownProp d' j = (if j = k then Some x else ownProp d j))
           \<and> (\<forall>j. propOf d' j = (if j = k then x else propOf d j))"
  using assms
  by (cases d) (simp_all add: propOf_def lookup_prop_def update_conv)

lemma fillWhenFalsy_object:
  assumes "isObject d"
  shows "\<exists>d'. fillWhenFalsy d k x = Inr d' \<and> isObject d'
           \<and> ownProp d' k = (if truthy (propOf d k) then ownProp d k else Some x)
           \<and> (\<forall>j. j \<noteq> k \<longrightarrow> ownProp d' j = ownProp d j)
           \<and> (\<forall>j. j \<noteq> k \<longrightarrow> propOf d' j = propOf d j)"
proof (cases "truthy (propOf d k)")
  case True
  with assms show ?thesis by (simp add: fillWhenFalsy_def getProp_object)
next
  case False
  from setProp_object [OF assms, of k x] obtain d' where
    "setProp d k x = Inr d'" "isObject d'"
    "\<forall>j. ownProp d' j = (if j = k then Some x else ownProp d j)"
    "\<forall>j. propOf d' j = (if j = k then x else propOf d j)" by blast
  with False assms show ?thesis by (simp add: fillWhenFalsy_def getProp_object)
qed

lemma readFlash_undefined:
  "req_flash req = FlashUndefined \<Longrightarrow> readFlash req d s = Inr (d, s)"
  by (simp add: readFlash_def)

lemma readFlash_reader:
  assumes "req_flash req = FlashReader flash" and "isObject d"
  shows "\<exists>d'. readFlash req d s =
            Inr (d', snd (flash ''info'' (snd (flash ''error'' (snd (flash ''success'' s))))))
          \<and> isObject d'
          \<and> ownProp d' ''success'' = Some (fst (flash ''success'' s))
          \<and> ownProp d' ''error'' = Some (fst (flash ''error'' (snd (flash ''success'' s))))
          \<and> ownProp d' ''info'' =
              Some (fst (flash ''info'' (snd (flash ''error'' (snd (flash ''success'' s))))))
          \<and> (\<forall>j. j \<notin> {''success'', ''error'', ''info''} \<longrightarrow> ownProp d' j = ownProp d j)"
proof -
  obtain v1 s1 where f1: "flash ''success'' s = (v1, s1)" by (cases "flash ''success'' s")
  obtain v2 s2 where f2: "flash ''error'' s1 = (v2, s2)" by (cases "flash ''error'' s1")
  obtain v3 s3 where f3: "flash ''info'' s2 = (v3, s3)" by (cases "flash ''info'' s2")
  from setProp_object [OF assms(2), of "''success''" v1] obtain d1 where
    d1: "setProp d ''success'' v1 = Inr d1" "isObject d1"
      "\<forall>j. ownProp d1 j = (if j = ''success'' then Some v1 else ownProp d j)" by blast
  from setProp_object [OF d1(2), of "''error''" v2] obtain d2 where
    d2: "setProp d1 ''error'' v2 = Inr d2" "isObject d2"
      "\<forall>j. ownProp d2 j = (if j = ''error'' then Some v2 else ownProp d1 j)" by blast
  from setProp_object [OF d2(2), of "''info''" v3] obtain d3 where
    d3: "setProp d2 ''info'' v3 = Inr d3" "isObject d3"
      "\<forall>j. ownProp d3 j = (if j = ''info'' then Some v3 else ownProp d2 j)" by blast
  have "readFlash req d s = Inr (d3, s3)"
    using assms(1) f1 f2 f3 d1(1) d2(1) d3(1) by (simp add: readFlash_def)
  moreover have "ownProp d3 ''success'' = Some v1" "ownProp d3 ''error'' = Some v2"
    "ownProp d3 ''info'' = Some v3"
    using d1(3) d2(3) d3(3) by simp_all
  moreover have "\<forall>j. j \<notin> {''success'', ''error'', ''info''} \<longrightarrow> ownProp d3 j = ownProp d j"
    using d1(3) d2(3) d3(3) by simp
  ultimately show ?thesis using d3(2) f1 f2 f3 by simp
qed

text \<open>
  On a data object the three fills succeed; what is left of \<^verbatim>\<open>render\<close> is the flash
  step and the call of the renderer.
\<close>

lemma render_fills:
  assumes ra: "renderArguments (ctx_actionName this) arguments = (viewName, d)"
    and obj: "isObject d"
  shows "\<exists>d3. isObject d3
     \<and> render this arguments s =
         (case readFlash (ctx_req this) d3 s of
            Inl e \<Rightarrow> Inl e
          | Inr (data, s') \<Rightarrow> Inr ((ctx_viewBaseName this @ ''/'' @ viewName, data), s'))
     \<and> ownProp d3 ''controllerName'' =
         (if truthy (propOf d ''controllerName'') then ownProp d ''controllerName''
          else Some (rd_controllerName (cc_routeData (ctx_class this))))
     \<and> ownProp d3 ''actionName'' =
         (if truthy (propOf d ''actionName'') then ownProp d ''actionName''
          else Some (JStr (ctx_actionName this)))
     \<and> ownProp d3 ''session'' =
         (if truthy (propOf d ''session'') then ownProp d ''session''
          else Some (req_session (ctx_req this)))
     \<and> (\<forall>j. j \<notin> {''controllerName'', ''actionName'', ''session''} \<longrightarrow> ownProp d3 j = ownProp d j)"
proof -
  from fillWhenFalsy_object [OF obj, of "''controllerName''" "rd_controllerName (cc_routeData (ctx_class this))"]
  obtain d1 where d1: "fillWhenFalsy d ''controllerName'' (rd_controllerName (cc_routeData (ctx_class this))) = Inr d1"
    "isObject d1"
    "ownProp d1 ''controllerName'' =
       (if truthy (propOf d ''controllerName'') then ownProp d ''controllerName''
        else Some (rd_controllerName (cc_routeData (ctx_class this))))"
    "\<forall>j. j \<noteq> ''controllerName'' \<longrightarrow> ownProp d1 j = ownProp d j"
    "\<forall>j. j \<noteq> ''controllerName'' \<longrightarrow> propOf d1 j = propOf d j" by blast
  from fillWhenFalsy_object [OF d1(2), of "''actionName''" "JStr (ctx_actionName this)"]
  obtain d2 where d2: "fillWhenFalsy d1 ''actionName'' (JStr (ctx_actionName this)) = Inr d2"
    "isObject d2"
    "ownProp d2 ''actionName'' =
       (if truthy (propOf d1 ''actionName'') then ownProp d1 ''actionName''
        else Some (JStr (ctx_actionName this)))"
    "\<forall>j. j \<noteq> ''actionName'' \<longrightarrow> ownProp d2 j = ownProp d1 j"
    "\<forall>j. j \<noteq> ''actionName'' \<longrightarrow> propOf d2 j = propOf d1 j" by blast
  from fillWhenFalsy_object [OF d2(2), of "''session''" "req_session (ctx_req this)"]
  obtain d3 where d3: "fillWhenFalsy d2 ''session'' (req_session (ctx_req this)) = Inr d3"
    "isObject d3"
    "ownProp d3 ''session'' =
       (if truthy (propOf d2 ''session'') then ownProp d2 ''session''
        else Some (req_session (ctx_req this)))"
    "\<forall>j. j \<noteq> ''session'' \<longrightarrow> ownProp d3 j = ownProp d2 j"
    "\<forall>j. j \<noteq> ''session'' \<longrightarrow> propOf d3 j = propOf d2 j" by blast
  have r: "render this arguments s =
         (case readFlash (ctx_req this) d3 s of
            Inl e \<Rightarrow> Inl e
          | Inr (data, s') \<Rightarrow> Inr ((ctx_viewBaseName this @ ''/'' @ viewName, data), s'))"
    using ra d1(1) d2(1) d3(1) by (simp add: render_def)
  have c: "ownProp d3 ''controllerName'' =
         (if truthy (propOf d ''controllerName'') then ownProp d ''controllerName''
          else Some (rd_controllerName (cc_routeData (ctx_class this))))"
    using d1(3) d2(4) d3(4) by simp
  have a: "ownProp d3 ''actionName'' =
         (if truthy (propOf d ''actionName'') then ownProp d ''actionName''
          else Some (JStr (ctx_actionName this)))"
    using d1(4,5) d2(3) d3(4) by simp
  have e: "ownProp d3 ''session'' =
         (if truthy (propOf d ''session'') then ownProp d ''session''
          else Some (req_session (ctx_req this)))"
    using d1(4,5) d2(4,5) d3(3) by simp
  have o: "\<forall>j. j \<notin> {''controllerName'', ''actionName'', ''session''} \<longrightarrow> ownProp d3 j = ownProp d j"
    using d1(4) d2(4) d3(4) by simp
  from d3(2) r c a e o show ?thesis by blast
qed

text \<open>
  Claim C9. On a data object: when \<^verbatim>\<open>req.flash\<close> is a reader, \<^verbatim>\<open>render\<close> returns with
  \<^verbatim>\<open>data.success\<close>, \<^verbatim>\<open>data.error\<close> and \<^verbatim>\<open>data.info\<close> set to what the reader returns for the
  keys \<^verbatim>\<open>success\<close>, \<^verbatim>\<open>error\<close> and \<^verbatim>\<open>info\<close>, read in this order, whatever the caller had put
  under these keys; when \<^verbatim>\<open>req.flash\<close> is undefined, the three properties are as the
  caller passed them, present or absent, and the store of the reader is untouched.
\<close>

theorem flash_overwrites_or_leaves_untouched:
  assumes ra: "renderArguments (ctx_actionName this) arguments = (viewName, data)"
    and obj: "isObject data"
  shows "(req_flash (ctx_req this) = FlashReader flash \<longrightarrow>
            (\<exists>path data'.
               render this arguments s =
                 Inr ((path, data'),
                      snd (flash ''info'' (snd (flash ''error'' (snd (flash ''success'' s))))))
             \<and> ownProp data' ''success'' = Some (fst (flash ''success'' s))
             \<and> ownProp data' ''error'' = Some (fst (flash ''error'' (snd (flash ''success'' s))))
             \<and> ownProp data' ''info'' =
                 Some (fst (flash ''info'' (snd (flash ''error'' (snd (flash ''success'' s))))))))
       \<and> (req_flash (ctx_req this) = FlashUndefined \<longrightarrow>
            (\<exists>path data'.
               render this arguments s = Inr ((path, data'), s)
             \<and> ownProp data' ''success'' = ownProp data ''success''
             \<and> ownProp data' ''error'' = ownProp data ''error''
             \<and> ownProp data' ''info'' = ownProp data ''info''))"
proof -
  from render_fills [OF ra obj, of s] obtain d3 where d3: "isObject d3"
    "render this arguments s =
         (case readFlash (ctx_req this) d3 s of
            Inl e \<Rightarrow> Inl e
          | Inr (data, s') \<Rightarrow> Inr ((ctx_viewBaseName this @ ''/'' @ viewName, data), s'))"
    "\<forall>j. j \<notin> {''controllerName'', ''actionName'', ''session''} \<longrightarrow> ownProp d3 j = ownProp data j"
    by blast
  have A: "\<exists>path data'.
               render this arguments s =
                 Inr ((path, data'),
                      snd (flash ''info'' (snd (flash ''error'' (snd (flash ''success'' s))))))
             \<and> ownProp data' ''success'' = Some (fst (flash ''success'' s))
             \<and> ownProp data' ''error'' = Some (fst (flash ''error'' (snd (flash ''success'' s))))
             \<and> ownProp data' ''info'' =
                 Some (fst (flash ''info'' (snd (flash ''error'' (snd (flash ''success'' s))))))"
    if f: "req_flash (ctx_req this) = FlashReader flash"
  proof -
    from readFlash_reader [OF f d3(1), of s] obtain d' where
      "readFlash (ctx_req this) d3 s =
            Inr (d', snd (flash ''info'' (snd (flash ''error'' (snd (flash ''success'' s))))))"
      "ownProp d' ''success'' = Some (fst (flash ''success'' s))"
      "ownProp d' ''error'' = Some (fst (flash ''error'' (snd (flash ''success'' s))))"
      "ownProp d' ''info'' =
              Some (fst (flash ''info'' (snd (flash ''error'' (snd (flash ''success'' s))))))"
      by blast
    with d3(2) show ?thesis by simp
  qed
  have B: "\<exists>path data'.
               render this arguments s = Inr ((path, data'), s)
             \<and> ownProp data' ''success'' = ownProp data ''success''
             \<and> ownProp data' ''error'' = ownProp data ''error''
             \<and> ownProp data' ''info'' = ownProp data ''info''"
    if f: "req_flash (ctx_req this) = FlashUndefined"
    using d3(2,3) by (simp add: readFlash_undefined [OF f])
  from A B show ?thesis by blast
qed

theorem flash_overwrites_or_leaves_untouched_witness:
  "renderArguments (ctx_actionName flashContext) [JObj [(''success'', JStr ''mine'')]]
     = (''getSomething'', JObj [(''success'', JStr ''mine'')])
   \<and> isObject (JObj [(''success'', JStr ''mine'')])
   \<and> (\<exists>path data'.
         render flashContext [JObj [(''success'', JStr ''mine'')]] 0 = Inr ((path, data'), 3)
       \<and> ownProp data' ''success'' = Some (JObj [(''key'', JStr ''success''), (''read'', JNum 0)])
       \<and> ownProp data' ''error'' = Some (JObj [(''key'', JStr ''error''), (''read'', JNum 1)])
       \<and> ownProp data' ''info'' = Some (JObj [(''key'', JStr ''info''), (''read'', JNum 2)]))
   \<and> renderArguments (ctx_actionName plainContext) [JObj [(''success'', JStr ''mine'')]]
     = (''getSomething'', JObj [(''success'', JStr ''mine'')])
   \<and> (\<exists>path data'.
         render plainContext [JObj [(''success'', JStr ''mine'')]] () = Inr ((path, data'), ())
       \<and> ownProp data' ''success'' = Some (JStr ''mine'')
       \<and> ownProp data' ''error'' = None
       \<and> ownProp data' ''info'' = None)"
proof -
  have n: "rd_actionName (h_routeData somethingHandler) = ''getSomething''"
    by (simp add: somethingHandler_def registered_addRoute actionRoute_fields)
  have h1: "renderArguments (ctx_actionName flashContext) [JObj [(''success'', JStr ''mine'')]]
     = (''getSomething'', JObj [(''success'', JStr ''mine'')])"
    by (simp add: flashContext_def actionFn_def Let_def n renderArguments_def argument_def)
  have h2: "isObject (JObj [(''success'', JStr ''mine'')])" by simp
  have h3: "renderArguments (ctx_actionName plainContext) [JObj [(''success'', JStr ''mine'')]]
     = (''getSomething'', JObj [(''success'', JStr ''mine'')])"
    by (simp add: plainContext_def actionFn_def Let_def n renderArguments_def argument_def)
  have f1: "req_flash (ctx_req flashContext) =
      FlashReader (\<lambda>k n. (JObj [(''key'', JStr k), (''read'', JNum (int n))], Suc n))"
    by (simp add: flashContext_def actionFn_def Let_def flashRequest_def)
  have f2: "req_flash (ctx_req plainContext) = FlashUndefined"
    by (simp add: plainContext_def actionFn_def Let_def plainRequest_def)
  from flash_overwrites_or_leaves_untouched [OF h1 h2,
      of "\<lambda>k n. (JObj [(''key'', JStr k), (''read'', JNum (int n))], Suc n)" 0] f1
  have c1: "\<exists>path data'.
         render flashContext [JObj [(''success'', JStr ''mine'')]] 0 = Inr ((path, data'), 3)
       \<and> ownProp data' ''success'' = Some (JObj [(''key'', JStr ''success''), (''read'', JNum 0)])
       \<and> ownProp data' ''error'' = Some (JObj [(''key'', JStr ''error''), (''read'', JNum 1)])
       \<and> ownProp data' ''info'' = Some (JObj [(''key'', JStr ''info''), (''read'', JNum 2)])"
    by (simp add: numeral_3_eq_3)
  from flash_overwrites_or_leaves_untouched [OF h3 h2, of undefined "()"] f2
  have c2: "\<exists>path data'.
         render plainContext [JObj [(''success'', JStr ''mine'')]] () = Inr ((path, data'), ())
       \<and> ownProp data' ''success'' = Some (JStr ''mine'')
       \<and> ownProp data' ''error'' = None
       \<and> ownProp data' ''info'' = None"
    by simp
  from h1 h2 h3 c1 c2 show ?thesis by blast
qed

text \<open>
  The wrappers of the routes that \<^verbatim>\<open>setFunctionActions\<close> registers hold the normalized
  controller name as \<^verbatim>\<open>routeData[6]\<close>, provided the wrappers cached for the instance do.
\<close>

lemma addRoute_keeps_controllerName:
  assumes inv: "list_all (\<lambda>lc. obj_ref (lc_instance lc) = obj_ref (rd_instance rd)
                    \<longrightarrow> rd_controllerName (cc_routeData (lc_controller lc)) = rd_controllerName rd)
                  (loaded st)"
  shows "list_all (\<lambda>lc. obj_ref (lc_instance lc) = obj_ref (rd_instance rd)
                    \<longrightarrow> rd_controllerName (cc_routeData (lc_controller lc)) = rd_controllerName rd)
           (loaded (addRoute st rd))"
    and "rd_controllerName (cc_routeData (h_controllerClass (reg_handler
           (last (registered (addRoute st rd)))))) = rd_controllerName rd"
proof -
  let ?P = "\<lambda>item. obj_ref (lc_instance item) = obj_ref (rd_instance rd)"
  show "list_all (\<lambda>lc. obj_ref (lc_instance lc) = obj_ref (rd_instance rd)
                    \<longrightarrow> rd_controllerName (cc_routeData (lc_controller lc)) = rd_controllerName rd)
           (loaded (addRoute st rd))"
    using inv by (simp add: loaded_addRoute split: list.splits)
  show "rd_controllerName (cc_routeData (h_controllerClass (reg_handler
           (last (registered (addRoute st rd)))))) = rd_controllerName rd"
  proof (cases "filter ?P (loaded st)")
    case Nil
    then show ?thesis by (simp add: registered_addRoute)
  next
    case (Cons item rest)
    then have "item \<in> set (filter ?P (loaded st))" by simp
    then have "item \<in> set (loaded st)" "?P item" by simp_all
    with inv have "rd_controllerName (cc_routeData (lc_controller item)) = rd_controllerName rd"
      by (simp add: list_all_iff)
    with Cons show ?thesis by (simp add: registered_addRoute)
  qed
qed

lemma setFunctionActions_controllerName:
  assumes "list_all (\<lambda>lc. obj_ref (lc_instance lc) = obj_ref inst
                    \<longrightarrow> rd_controllerName (cc_routeData (lc_controller lc)) = JStr (normalizedName cd))
             (loaded st)"
  shows "\<exists>new. registered (setFunctionActions st cd inst names) = registered st @ new
     \<and> list_all (\<lambda>reg. rd_controllerName (cc_routeData (h_controllerClass (reg_handler reg)))
                        = JStr (normalizedName cd)) new"
  using assms
proof (induction names arbitrary: st)
  case Nil show ?case by simp
next
  case (Cons a names)
  show ?case
  proof (cases "eligible inst a")
    case True
    let ?rd = "actionRoute cd inst a (JStr (normalizedName cd))"
    have inv: "list_all (\<lambda>lc. obj_ref (lc_instance lc) = obj_ref (rd_instance ?rd)
                    \<longrightarrow> rd_controllerName (cc_routeData (lc_controller lc)) = rd_controllerName ?rd)
                  (loaded st)"
      using Cons.prems by (simp add: actionRoute_fields)
    from addRoute_keeps_controllerName [OF inv]
    have i: "list_all (\<lambda>lc. obj_ref (lc_instance lc) = obj_ref inst
                    \<longrightarrow> rd_controllerName (cc_routeData (lc_controller lc)) = JStr (normalizedName cd))
               (loaded (addRoute st ?rd))"
      and l: "rd_controllerName (cc_routeData (h_controllerClass (reg_handler
           (last (registered (addRoute st ?rd)))))) = JStr (normalizedName cd)"
      by (simp_all add: actionRoute_fields)
    from Cons.IH [OF i] obtain new where new:
      "registered (setFunctionActions (addRoute st ?rd) cd inst names)
         = registered (addRoute st ?rd) @ new"
      "list_all (\<lambda>reg. rd_controllerName (cc_routeData (h_controllerClass (reg_handler reg)))
                        = JStr (normalizedName cd)) new" by blast
    obtain reg where reg: "registered (addRoute st ?rd) = registered st @ [reg]"
      by (simp add: registered_addRoute)
    with l have "rd_controllerName (cc_routeData (h_controllerClass (reg_handler reg)))
                   = JStr (normalizedName cd)" by simp
    with new reg True show ?thesis by simp
  next
    case False
    with Cons.IH [OF Cons.prems] show ?thesis by simp
  qed
qed

text \<open>
  Claim C2, as amended. For a render call on a data object, in a route of either
  variant: \<^verbatim>\<open>data.actionName\<close> is set to the raw action name and \<^verbatim>\<open>data.session\<close> to the
  session of the request when the value the caller passed is absent or falsy, and a
  truthy value of the caller under \<^verbatim>\<open>controllerName\<close>, \<^verbatim>\<open>actionName\<close> or \<^verbatim>\<open>session\<close> is left as
  it is. For a class-like controller whose instance has no wrapper yet when it is
  loaded, an absent or falsy \<^verbatim>\<open>data.controllerName\<close> is set to the normalized controller
  name, which is empty for the controller \<^verbatim>\<open>default\<close>.
\<close>

theorem render_fills_absent_or_falsy:
  assumes load: "loadImplicitRoutes st cd = Inr st'"
    and reg: "reg \<in> set (drop (length (registered st)) (registered st'))"
    and ra: "renderArguments (rd_actionName (h_routeData (reg_handler reg))) arguments
               = (viewName, data)"
    and obj: "isObject data"
    and fl: "req_flash req \<noteq> FlashNotCallable"
  shows "\<exists>path data' s'.
      render (inv_this (actionFn (reg_handler reg) req)) arguments s = Inr ((path, data'), s')
    \<and> ownProp data' ''actionName'' =
        (if truthy (propOf data ''actionName'') then ownProp data ''actionName''
         else Some (JStr (rd_actionName (h_routeData (reg_handler reg)))))
    \<and> ownProp data' ''session'' =
        (if truthy (propOf data ''session'') then ownProp data ''session''
         else Some (req_session req))
    \<and> (truthy (propOf data ''controllerName'') \<longrightarrow>
         ownProp data' ''controllerName'' = ownProp data ''controllerName'')
    \<and> (\<forall>names inst.
         controllerDef cd = ClassDef names (Inr inst)
         \<and> list_all (\<lambda>lc. obj_ref (lc_instance lc) \<noteq> obj_ref inst) (loaded st)
         \<and> \<not> truthy (propOf data ''controllerName'') \<longrightarrow>
         ownProp data' ''controllerName'' = Some (JStr (normalizedName cd)))"
proof -
  let ?ctx = "inv_this (actionFn (reg_handler reg) req)"
  have an: "ctx_actionName ?ctx = rd_actionName (h_routeData (reg_handler reg))"
    and rq: "ctx_req ?ctx = req"
    and cl: "ctx_class ?ctx = h_controllerClass (reg_handler reg)"
    by (simp_all add: actionFn_def Let_def)
  from ra an have ra': "renderArguments (ctx_actionName ?ctx) arguments = (viewName, data)"
    by simp
  from render_fills [OF ra' obj, of s] obtain d3 where d3: "isObject d3"
    "render ?ctx arguments s =
         (case readFlash req d3 s of
            Inl e \<Rightarrow> Inl e
          | Inr (data, s') \<Rightarrow> Inr ((ctx_viewBaseName ?ctx @ ''/'' @ viewName, data), s'))"
    "ownProp d3 ''controllerName'' =
         (if truthy (propOf data ''controllerName'') then ownProp data ''controllerName''
          else Some (rd_controllerName (cc_routeData (h_controllerClass (reg_handler reg)))))"
    "ownProp d3 ''actionName'' =
         (if truthy (propOf data ''actionName'') then ownProp data ''actionName''
          else Some (JStr (rd_actionName (h_routeData (reg_handler reg)))))"
    "ownProp d3 ''session'' =
         (if truthy (propOf data ''session'') then ownProp data ''session''
          else Some (req_session req))"
    unfolding an rq cl by blast
  have "\<exists>data' s'. readFlash req d3 s = Inr (data', s')
          \<and> ownProp data' ''controllerName'' = ownProp d3 ''controllerName''
          \<and> ownProp data' ''actionName'' = ownProp d3 ''actionName''
          \<and> ownProp data' ''session'' = ownProp d3 ''session''"
  proof (cases "req_flash req")
    case FlashUndefined
    then show ?thesis by (simp add: readFlash_undefined)
  next
    case (FlashReader flash)
    from readFlash_reader [OF FlashReader d3(1), of s] obtain d' where
      "readFlash req d3 s =
         Inr (d', snd (flash ''info'' (snd (flash ''error'' (snd (flash ''success'' s))))))"
      "\<forall>j. j \<notin> {''success'', ''error'', ''info''} \<longrightarrow> ownProp d' j = ownProp d3 j"
      by blast
    then show ?thesis by simp
  next
    case FlashNotCallable
    with fl show ?thesis by simp
  qed
  then obtain data' s' where r: "readFlash req d3 s = Inr (data', s')"
    and k: "ownProp data' ''controllerName'' = ownProp d3 ''controllerName''"
      "ownProp data' ''actionName'' = ownProp d3 ''actionName''"
      "ownProp data' ''session'' = ownProp d3 ''session''" by blast
  have R: "render ?ctx arguments s
             = Inr ((ctx_viewBaseName ?ctx @ ''/'' @ viewName, data'), s')"
    using d3(2) r by simp
  have C: "rd_controllerName (cc_routeData (h_controllerClass (reg_handler reg)))
             = JStr (normalizedName cd)"
    if c: "controllerDef cd = ClassDef names (Inr inst)"
      and fresh: "list_all (\<lambda>lc. obj_ref (lc_instance lc) \<noteq> obj_ref inst) (loaded st)"
    for names inst
  proof -
    from load c have st': "st' = setFunctionActions st cd inst
        (filter (\<lambda>x. x \<noteq> ''constructor'' \<and> charAt0 x \<noteq> ''_'') names)"
      by (simp add: loadImplicitRoutes_def)
    from fresh have "list_all (\<lambda>lc. obj_ref (lc_instance lc) = obj_ref inst
        \<longrightarrow> rd_controllerName (cc_routeData (lc_controller lc)) = JStr (normalizedName cd))
        (loaded st)"
      by (simp add: list_all_iff)
    from setFunctionActions_controllerName [OF this] obtain new where
      "registered st' = registered st @ new"
      "list_all (\<lambda>reg. rd_controllerName (cc_routeData (h_controllerClass (reg_handler reg)))
                        = JStr (normalizedName cd)) new"
      unfolding st' by blast
    with reg show ?thesis by (simp add: list_all_iff)
  qed
  from R k d3(3,4,5) C show ?thesis by auto
qed

theorem render_fills_absent_or_falsy_witness:
  "loadImplicitRoutes initialState defaultController = Inr defaultRoutes
   \<and> hd (registered defaultRoutes)
       \<in> set (drop (length (registered initialState)) (registered defaultRoutes))
   \<and> renderArguments (rd_actionName (h_routeData (reg_handler (hd (registered defaultRoutes)))))
       [JObj [(''session'', JStr ''mine'')]] = (''index'', JObj [(''session'', JStr ''mine'')])
   \<and> isObject (JObj [(''session'', JStr ''mine'')])
   \<and> req_flash plainRequest \<noteq> FlashNotCallable
   \<and> controllerDef defaultController = ClassDef [''constructor'', ''index''] (Inr defaultInstance)
   \<and> list_all (\<lambda>lc. obj_ref (lc_instance lc) \<noteq> obj_ref defaultInstance) (loaded initialState)
   \<and> (\<exists>path data' s'.
        render (inv_this (actionFn (reg_handler (hd (registered defaultRoutes))) plainRequest))
          [JObj [(''session'', JStr ''mine'')]] () = Inr ((path, data'), s')
      \<and> ownProp data' ''actionName'' = Some (JStr ''index'')
      \<and> ownProp data' ''session'' = Some (JStr ''mine'')
      \<and> ownProp data' ''controllerName'' = Some (JStr []))"
proof -
  have e: "eligible defaultInstance ''index''"
    by (simp add: eligible_def defaultInstance_def charAt0_def)
  have h1: "loadImplicitRoutes initialState defaultController = Inr defaultRoutes"
    by (simp add: loadImplicitRoutes_def defaultController_def defaultRoutes_def charAt0_def)
  have g: "registered defaultRoutes =
      [last (registered (addRoute initialState
         (actionRoute defaultController defaultInstance ''index'' (JStr (normalizedName defaultController)))))]"
    by (simp add: defaultRoutes_def e registered_addRoute initialState_def)
  have h2: "hd (registered defaultRoutes)
       \<in> set (drop (length (registered initialState)) (registered defaultRoutes))"
    by (simp add: g initialState_def)
  have n: "rd_actionName (h_routeData (reg_handler (hd (registered defaultRoutes)))) = ''index''"
    by (simp add: g registered_addRoute actionRoute_fields)
  have h3: "renderArguments (rd_actionName (h_routeData (reg_handler (hd (registered defaultRoutes)))))
       [JObj [(''session'', JStr ''mine'')]] = (''index'', JObj [(''session'', JStr ''mine'')])"
    by (simp add: n renderArguments_def argument_def)
  have h4: "isObject (JObj [(''session'', JStr ''mine'')])" by simp
  have h5: "req_flash plainRequest \<noteq> FlashNotCallable" by (simp add: plainRequest_def)
  have h6: "controllerDef defaultController = ClassDef [''constructor'', ''index''] (Inr defaultInstance)"
    by (simp add: defaultController_def)
  have h7: "list_all (\<lambda>lc. obj_ref (lc_instance lc) \<noteq> obj_ref defaultInstance) (loaded initialState)"
    by (simp add: loaded_def initialState_def)
  have nn: "normalizedName defaultController = []"
    by (simp add: normalizedName_def defaultController_def)
  from render_fills_absent_or_falsy [OF h1 h2 h3 h4 h5, of "()"] obtain path data' s' where
    c: "render (inv_this (actionFn (reg_handler (hd (registered defaultRoutes))) plainRequest))
          [JObj [(''session'', JStr ''mine'')]] () = Inr ((path, data'), s')"
      "ownProp data' ''actionName'' =
        (if truthy (propOf (JObj [(''session'', JStr ''mine'')]) ''actionName'')
         then ownProp (JObj [(''session'', JStr ''mine'')]) ''actionName''
         else Some (JStr (rd_actionName (h_routeData (reg_handler (hd (registered defaultRoutes)))))))"
      "ownProp data' ''session'' =
        (if truthy (propOf (JObj [(''session'', JStr ''mine'')]) ''session'')
         then ownProp (JObj [(''session'', JStr ''mine'')]) ''session''
         else Some (req_session plainRequest))"
      "\<forall>names inst.
         controllerDef defaultController = ClassDef names (Inr inst)
         \<and> list_all (\<lambda>lc. obj_ref (lc_instance lc) \<noteq> obj_ref inst) (loaded initialState)
         \<and> \<not> truthy (propOf (JObj [(''session'', JStr ''mine'')]) ''controllerName'') \<longrightarrow>
         ownProp data' ''controllerName'' = Some (JStr (normalizedName defaultController))"
    by blast
  from c(2) n have a: "ownProp data' ''actionName'' = Some (JStr ''index'')"
    by (simp add: propOf_def lookup_prop_def)
  from c(3) have b: "ownProp data' ''session'' = Some (JStr ''mine'')"
    by (simp add: propOf_def lookup_prop_def)
  have "\<not> truthy (propOf (JObj [(''session'', JStr ''mine'')]) ''controllerName'')"
    by (simp add: propOf_def lookup_prop_def)
  with c(4) h6 h7 nn have d: "ownProp data' ''controllerName'' = Some (JStr [])"
    by auto
  from h1 h2 h3 h4 h5 h6 h7 c(1) a b d show ?thesis by blast
qed

text \<open>
  Claim C2 as stated fails. For the class-like controller \<^verbatim>\<open>default\<close>, \<^verbatim>\<open>render({})\<close> in
  the action \<^verbatim>\<open>index\<close> passes the empty string as \<^verbatim>\<open>controllerName\<close>, not the raw name
  \<^verbatim>\<open>default\<close>; and a value that the caller supplied is replaced when it is falsy, here
  the empty \<^verbatim>\<open>actionName\<close>.
\<close>

theorem render_controllerName_counterexample:
  "controllerName defaultController = ''default''
   \<and> renderedAt (loadImplicitRoutes initialState defaultController) 0 plainRequest [JObj []]
       = Inr (''default/index'',
              JObj [(''controllerName'', JStr []), (''actionName'', JStr ''index''),
                    (''session'', JUndefined)])
   \<and> renderedAt (loadImplicitRoutes initialState defaultController) 0 plainRequest
         [JObj [(''actionName'', JStr [])]]
       = Inr (''default/index'',
              JObj [(''actionName'', JStr ''index''), (''controllerName'', JStr []),
                    (''session'', JUndefined)])"
  by code_simp

text \<open>
  Claim C1, on the action \<^verbatim>\<open>getSomething\<close> of \<^verbatim>\<open>homeController.js\<close>. Its route is
  \<^verbatim>\<open>GET /home/something\<close> and its bare name is \<^verbatim>\<open>something\<close>; \<^verbatim>\<open>this.render({})\<close> and
  \<^verbatim>\<open>this.render()\<close> call the renderer with the view \<^verbatim>\<open>home/getSomething\<close>: the view name
  is the raw action name \<^verbatim>\<open>routeData[3]\<close>. With a textual first argument the second
  argument is the data.
\<close>

theorem render_view_name_is_raw_action_name:
  "hd (routeTable (loadImplicitRoutes initialState homeController))
     = (''get'', ''/home/something'', ''getSomething'')
   \<and> resolveAction ''getSomething'' = (''get'', ''something'')
   \<and> renderedAt (loadImplicitRoutes initialState homeController) 0 plainRequest [JObj []]
       = Inr (''home/getSomething'',
              JObj [(''controllerName'', JUndefined), (''actionName'', JStr ''getSomething''),
                    (''session'', JUndefined)])
   \<and> renderedAt (loadImplicitRoutes initialState homeController) 0 plainRequest []
       = Inr (''home/getSomething'',
              JObj [(''controllerName'', JUndefined), (''actionName'', JStr ''getSomething''),
                    (''session'', JUndefined)])
   \<and> renderedAt (loadImplicitRoutes initialState homeController) 0 plainRequest
         [JStr ''customView'', JObj [(''x'', JNum 1)]]
       = Inr (''home/customView'',
              JObj [(''x'', JNum 1), (''controllerName'', JUndefined),
                    (''actionName'', JStr ''getSomething''), (''session'', JUndefined)])"
  by code_simp

end
